theory Spec2Isabelle
  imports Main
begin

section \<open>JavaScript values used by the scraper\<close>

text \<open>
  The configuration numbers come from \<^verbatim>\<open>parseInt\<close>, which yields an integer or
  \<^verbatim>\<open>NaN\<close>. Every comparison with \<^verbatim>\<open>NaN\<close> is false.
\<close>

datatype jsnum = NaN | Num int

fun js_le :: "int \<Rightarrow> jsnum \<Rightarrow> bool" where
  "js_le a NaN = False"
| "js_le a (Num b) = (a \<le> b)"

fun js_lt :: "int \<Rightarrow> jsnum \<Rightarrow> bool" where
  "js_lt a NaN = False"
| "js_lt a (Num b) = (a < b)"

fun js_ge :: "int \<Rightarrow> jsnum \<Rightarrow> bool" where
  "js_ge a NaN = False"
| "js_ge a (Num b) = (a \<ge> b)"

fun js_gt :: "int \<Rightarrow> jsnum \<Rightarrow> bool" where
  "js_gt a NaN = False"
| "js_gt a (Num b) = (a > b)"

subsection \<open>Strings\<close>

text \<open>
  A string is a list of characters. Case mapping and the whitespace class are modelled
  on ASCII: \<^verbatim>\<open>toLowerCase\<close> maps A..Z to a..z, and \<^verbatim>\<open>\s\<close> is space, tab, line feed,
  vertical tab, form feed and carriage return.
\<close>

definition lowerChar :: "char \<Rightarrow> char" where
  "lowerChar c =
     (case map_of (zip ''ABCDEFGHIJKLMNOPQRSTUVWXYZ'' ''abcdefghijklmnopqrstuvwxyz'') c of
        Some d \<Rightarrow> d
      | None \<Rightarrow> c)"

definition toLowerCase :: "string \<Rightarrow> string" where
  "toLowerCase s = map lowerChar s"

definition isSpace :: "char \<Rightarrow> bool" where
  "isSpace c = (c = CHR '' '' \<or> c = CHR 0x09 \<or> c = CHR 0x0A \<or> c = CHR 0x0B
                \<or> c = CHR 0x0C \<or> c = CHR 0x0D)"

text \<open>\<^verbatim>\<open>s.replace(/\s+/g, "-")\<close>: every maximal run of whitespace becomes one hyphen.\<close>

function replaceSpaces :: "string \<Rightarrow> string" where
  "replaceSpaces [] = []"
| "replaceSpaces (c # cs) =
     (if isSpace c then CHR ''-'' # replaceSpaces (dropWhile isSpace cs)
      else c # replaceSpaces cs)"
  by pat_completeness auto
termination
  by (relation "measure length") (auto simp: length_dropWhile_le less_Suc_eq_le)

definition trim :: "string \<Rightarrow> string" where
  "trim s = rev (dropWhile isSpace (rev (dropWhile isSpace s)))"

text \<open>\<^verbatim>\<open>s.startsWith(p)\<close> and \<^verbatim>\<open>s.includes(p)\<close>.\<close>

fun startsWith :: "string \<Rightarrow> string \<Rightarrow> bool" where
  "startsWith s [] = True"
| "startsWith [] (p # ps) = False"
| "startsWith (c # cs) (p # ps) = (c = p \<and> startsWith cs ps)"

fun includesStr :: "string \<Rightarrow> string \<Rightarrow> bool" where
  "includesStr [] p = (p = [])"
| "includesStr (c # cs) p = (startsWith (c # cs) p \<or> includesStr cs p)"

text \<open>\<^verbatim>\<open>xs.join(", ")\<close>.\<close>

fun join :: "string list \<Rightarrow> string" where
  "join [] = []"
| "join [x] = x"
| "join (x # y # ys) = x @ '', '' @ join (y # ys)"

text \<open>The decimal numeral a template literal prints for a non-negative integer.\<close>

definition digit :: "nat \<Rightarrow> char" where
  "digit d = ''0123456789'' ! d"

function toString :: "nat \<Rightarrow> string" where
  "toString n = (if n < 10 then [digit n] else toString (n div 10) @ [digit (n mod 10)])"
  by pat_completeness auto
termination
  by (relation "measure id") auto

declare toString.simps [simp del]

section \<open>Configuration\<close>

text \<open>
  The module-level constants of the script. The three numbers are the results of
  \<^verbatim>\<open>parseInt\<close> on the command line, the environment or the default.
\<close>

record config =
  EMAIL :: string
  PASSWORD :: string
  JOB_SEARCH_QUERY :: string
  LOCATION :: string
  EXPERIENCE :: string
  INTERNAL_JOBS_LIMIT :: jsnum
  EXTERNAL_JOBS_LIMIT :: jsnum
  MAX_PAGES_TO_SEARCH :: jsnum

definition MAX_RETRIES :: nat where
  "MAX_RETRIES = 3"

section \<open>Search URLs\<close>

definition formattedQuery :: "config \<Rightarrow> string" where
  "formattedQuery cfg = replaceSpaces (toLowerCase (JOB_SEARCH_QUERY cfg))"

definition formattedLocation :: "config \<Rightarrow> string" where
  "formattedLocation cfg = replaceSpaces (toLowerCase (LOCATION cfg))"

text \<open>The test \<^verbatim>\<open>EXPERIENCE && EXPERIENCE !== "0"\<close>: a string is truthy when it is not empty.\<close>

definition experienceGiven :: "config \<Rightarrow> bool" where
  "experienceGiven cfg = (EXPERIENCE cfg \<noteq> [] \<and> EXPERIENCE cfg \<noteq> ''0'')"

definition searchUrlStem :: "config \<Rightarrow> string" where
  "searchUrlStem cfg =
     ''https://www.naukri.com/'' @ formattedQuery cfg @ ''-jobs-in-'' @ formattedLocation cfg"

definition searchUrlBase :: "config \<Rightarrow> string" where
  "searchUrlBase cfg =
     (if experienceGiven cfg then searchUrlStem cfg @ ''?experience='' @ EXPERIENCE cfg
      else searchUrlStem cfg)"

definition searchUrlParams :: "config \<Rightarrow> string" where
  "searchUrlParams cfg = (if experienceGiven cfg then ''&'' else ''?'')"

definition currentPageUrl :: "config \<Rightarrow> nat \<Rightarrow> string" where
  "currentPageUrl cfg page =
     searchUrlBase cfg @
       (if page > 1 then searchUrlParams cfg @ ''pageNo='' @ toString page else [])"

section \<open>The browser as the scraper observes it\<close>

text \<open>
  The automation driver is an external collaborator. Each call the script makes on it
  has an outcome the script cannot control; the model takes these outcomes as data and
  every theorem about a run quantifies over all of them.
\<close>

datatype errclass = TimeoutError | NoSuchElementError | StaleElementReferenceError | OtherError

record jserror =
  errClass :: errclass
  message :: string

text \<open>
  An element answers \<^verbatim>\<open>getText()\<close>, \<^verbatim>\<open>getAttribute("href")\<close> and \<^verbatim>\<open>isDisplayed()\<close>.
  \<open>None\<close> stands for a rejected call (for the attribute also for \<^verbatim>\<open>null\<close>: the caller
  treats both alike).
\<close>

record element =
  getText :: "string option"
  getHref :: "string option"
  isDisplayed :: "bool option"

text \<open>
  A search context (a card, or a whole page) answers a selector with the first element
  it matches, and with the list of all elements it matches. A lookup that fails, times out
  or throws is \<open>None\<close> or the empty list, as \<^verbatim>\<open>safeFindElement\<close>, \<^verbatim>\<open>safeFindElements\<close>
  and the \<^verbatim>\<open>catch\<close> blocks around the details-page lookups make it.
\<close>

record dom =
  findElement :: "string \<Rightarrow> element option"
  findElements :: "string \<Rightarrow> element list"

definition safeGetText :: "element option \<Rightarrow> string \<Rightarrow> string" where
  "safeGetText el defaultValue =
     (case el of
        None \<Rightarrow> defaultValue
      | Some e \<Rightarrow>
          (case getText e of
             None \<Rightarrow> defaultValue
           | Some t \<Rightarrow> if t = [] then defaultValue else trim t))"

definition safeGetAttribute :: "element option \<Rightarrow> string option" where
  "safeGetAttribute el =
     (case el of
        None \<Rightarrow> None
      | Some e \<Rightarrow> map_option trim (getHref e))"

subsection \<open>What the driver does while one card is processed\<close>

record card_obs =
  scrollError :: "jserror option"
  cardDom :: dom
  windowHandleError :: "jserror option"
  openError :: "jserror option"
  newWindowFound :: bool
  switchError :: "jserror option"
  detailDom :: dom
  switchBackOk :: bool
  pauseError :: "jserror option"
  pacingError :: "jserror option"

text \<open>
  \<open>scrollError\<close>: the scroll script or the pause after it throws.
  \<open>windowHandleError\<close>: \<^verbatim>\<open>getWindowHandle\<close> throws.
  \<open>openError\<close>: opening the tab, the wait after it or \<^verbatim>\<open>getAllWindowHandles\<close> throws.
  \<open>newWindowFound\<close>: a handle other than the original one exists.
  \<open>switchError\<close>: switching to the new tab or the wait for its load throws.
  \<open>switchBackOk\<close>: switching back to the original window succeeds.
  \<open>pauseError\<close>: the pause after switching back throws.
  \<open>pacingError\<close>: the randomized delay after the card throws.
\<close>

section \<open>Job records and the state of a run\<close>

text \<open>
  The object pushed to \<^verbatim>\<open>jobsToSave\<close>, with the keys of the source. The key
  \<^verbatim>\<open>"Scraped Date"\<close> holds the clock and is left out.
\<close>

record jobData =
  Job_Title :: string
  Company_Name :: string
  Location :: string
  Experience_Required :: string
  Salary :: string
  Application_Type :: string
  Job_URL :: string
  Skills :: string
  Job_Description :: string
  Search_Query :: string
  Search_Location :: string
  Search_Experience :: string

datatype event =
    Fetch string
  | QuitDriver
  | BuildDriver bool
  | LoginNavigate string
  | SaveCookies

text \<open>
  The local variables of \<^verbatim>\<open>scrapeNaukriJobs\<close> that outlive a card, and the sequence of calls
  made on the driver that the specification speaks of: a search page fetched, the driver quit,
  a driver build attempted (with its success), a navigation of the login routine,
  the cookies saved.
\<close>

record run_state =
  jobsToSave :: "jobData list"
  internalCount :: nat
  externalCount :: nat
  newJobsCount :: nat
  scrapedUrls :: "string set"
  isLoggedIn :: bool
  events :: "event list"

definition limitsReached :: "config \<Rightarrow> run_state \<Rightarrow> bool" where
  "limitsReached cfg s =
     (js_ge (int (internalCount s)) (INTERNAL_JOBS_LIMIT cfg) \<and>
      js_ge (int (externalCount s)) (EXTERNAL_JOBS_LIMIT cfg))"

section \<open>Processing one card\<close>

definition titleSelectors :: "string list" where
  "titleSelectors =
     [''a.title'', ''.jobTitle.ellipsis'', ''a.jobTitle'', ''.title.ellipsis'', ''a[title]'',
      ''div.title a'', ''div.jobTitle a'']"

definition companySelectors :: "string list" where
  "companySelectors =
     [''a.comp-name'', ''a.companyName'', ''a.company-name'', ''div.companyName span'',
      ''div.comp-name a'', ''span.comp-name'', ''.companyInfo.subTitle.ellipsis'']"

definition locationSelectors :: "string list" where
  "locationSelectors =
     [''span.locWdth'', ''span.location'', ''.location.ellipsis'', ''div.loc span'',
      ''span.location-link'', ''div.location span'', ''span[title*='' @ [CHR 0x27] @ ''location'' @ [CHR 0x27] @ '']'',
      ''.new-joblist-location-item'']"

definition experienceSelectors :: "string list" where
  "experienceSelectors =
     [''span.expwdth'', ''span.experience'', ''.experience.ellipsis'', ''div.exp span'',
      ''span.exp-container'', ''li.experience'', ''.exp > span'']"

definition salarySelectors :: "string list" where
  "salarySelectors =
     [''span.sal-wrap span'', ''span.salary'', ''.salary.ellipsis'', ''div.sal span'',
      ''span.salary-container'', ''span[title*='' @ [CHR 0x27] @ ''salary'' @ [CHR 0x27] @ '']'',
      ''.salary > span'']"

definition skillsSelectors :: "string list" where
  "skillsSelectors =
     [''ul.tags-gt li'', ''ul.skill-tags li'', ''div.tag-li span'', ''ul.skills li'',
      ''div.skills-section span'', ''.chip.skill'', ''.tag-container > span'']"

definition descriptionSelectors :: "string list" where
  "descriptionSelectors =
     [''span.job-desc'', ''div.job-description'', ''div.desc'', ''div.jobDescription'',
      ''p.job-desc'', ''.job-description-main'']"

definition detailDescriptionSelectors :: "string list" where
  "detailDescriptionSelectors =
     [''div.styles_JDC__dang-inner-html__h0K4t'', ''section.job-desc'', ''div.dang-inner-html'',
      ''div.JDC__dang-inner-html'', ''div.jd-desc'', ''div.description'', ''div#jobDescription'',
      ''div.job-details-section'']"

definition detailSkillsSelectors :: "string list" where
  "detailSkillsSelectors =
     [''div.styles_key-skill__GIPn_ a.styles_chip__7YCfG'', ''div.key-skill span'',
      ''div.skills-container a'', ''div.keySkills span'', ''.styles_chips__vOE84 > span'']"

definition externalButtonSelectors :: "string list" where
  "externalButtonSelectors =
     [''#apply-on-company-site-button'', ''.styles_company-site-button__C_2YK'',
      ''.company-site-button'',
      ''button[data-action='' @ [CHR 0x27] @ ''apply-external'' @ [CHR 0x27] @ '']'',
      ''a.ext-apply-btn'',
      ''//button[contains(translate(., '' @ [CHR 0x27] @ ''ABCDEFGHIJKLMNOPQRSTUVWXYZ'' @ [CHR 0x27]
        @ '', '' @ [CHR 0x27] @ ''abcdefghijklmnopqrstuvwxyz'' @ [CHR 0x27] @ ''), '' @ [CHR 0x27]
        @ ''apply on company'' @ [CHR 0x27] @ '')]'',
      ''//a[contains(translate(., '' @ [CHR 0x27] @ ''ABCDEFGHIJKLMNOPQRSTUVWXYZ'' @ [CHR 0x27]
        @ '', '' @ [CHR 0x27] @ ''abcdefghijklmnopqrstuvwxyz'' @ [CHR 0x27] @ ''), '' @ [CHR 0x27]
        @ ''apply on company'' @ [CHR 0x27] @ '')]'']"

text \<open>
  Title and URL: the first title element whose \<^verbatim>\<open>href\<close> is a non-empty string ends the
  search; every element found on the way overwrites both variables.
\<close>

fun titleLoop :: "dom \<Rightarrow> string list \<Rightarrow> string \<Rightarrow> string option \<Rightarrow> string \<times> string option" where
  "titleLoop d [] jobTitle jobUrl = (jobTitle, jobUrl)"
| "titleLoop d (selector # rest) jobTitle jobUrl =
     (case findElement d selector of
        None \<Rightarrow> titleLoop d rest jobTitle jobUrl
      | Some e \<Rightarrow>
          (let jobTitle' = safeGetText (Some e) jobTitle;
               jobUrl' = safeGetAttribute (Some e)
           in if jobUrl' \<noteq> None \<and> jobUrl' \<noteq> Some [] then (jobTitle', jobUrl')
              else titleLoop d rest jobTitle' jobUrl'))"

text \<open>
  Company, experience, salary and the description snippet share one loop: the variable
  is overwritten by \<^verbatim>\<open>safeGetText(element, variable)\<close> and the loop ends when it differs
  from the field's sentinel.
\<close>

fun resolveText :: "dom \<Rightarrow> string list \<Rightarrow> string \<Rightarrow> string \<Rightarrow> string" where
  "resolveText d [] sentinel cur = cur"
| "resolveText d (selector # rest) sentinel cur =
     (case findElement d selector of
        None \<Rightarrow> resolveText d rest sentinel cur
      | Some e \<Rightarrow>
          (let cur' = safeGetText (Some e) cur
           in if cur' \<noteq> sentinel then cur' else resolveText d rest sentinel cur'))"

fun resolveLocation :: "dom \<Rightarrow> string list \<Rightarrow> string \<Rightarrow> string" where
  "resolveLocation d [] loc = loc"
| "resolveLocation d (selector # rest) loc =
     (case findElement d selector of
        None \<Rightarrow> resolveLocation d rest loc
      | Some e \<Rightarrow>
          (let extractedLocation = safeGetText (Some e) []
           in if extractedLocation \<noteq> [] \<and> toLowerCase extractedLocation \<noteq> ''not available''
              then extractedLocation
              else resolveLocation d rest loc))"

definition textsOf :: "element list \<Rightarrow> string list" where
  "textsOf elements = filter (\<lambda>t. t \<noteq> []) (map (\<lambda>el. safeGetText (Some el) []) elements)"

fun cardSkills :: "dom \<Rightarrow> string list \<Rightarrow> string list \<Rightarrow> string \<Rightarrow> string list \<times> string" where
  "cardSkills d [] skillsList skills = (skillsList, skills)"
| "cardSkills d (selector # rest) skillsList skills =
     (let elements = findElements d selector
      in if elements \<noteq> []
         then (let skillsList' = textsOf elements
               in if skillsList' \<noteq> [] then (skillsList', join skillsList')
                  else cardSkills d rest skillsList' skills)
         else cardSkills d rest skillsList skills)"

subsection \<open>The details page\<close>

text \<open>
  The detailed description replaces the current one when it is more than 20 characters
  longer; the first replacement ends the search.
\<close>

fun detailDescription :: "dom \<Rightarrow> string list \<Rightarrow> string \<Rightarrow> string" where
  "detailDescription d [] detailedDescription = detailedDescription"
| "detailDescription d (selector # rest) detailedDescription =
     (case findElement d selector of
        None \<Rightarrow> detailDescription d rest detailedDescription
      | Some descElement \<Rightarrow>
          (let detailText = safeGetText (Some descElement) []
           in if detailText \<noteq> [] \<and> length detailText > length detailedDescription + 20
              then detailText
              else detailDescription d rest detailedDescription))"

fun detailSkills :: "dom \<Rightarrow> string list \<Rightarrow> string list \<Rightarrow> string \<Rightarrow> string" where
  "detailSkills d [] skillsList detailedSkills = detailedSkills"
| "detailSkills d (selector # rest) skillsList detailedSkills =
     (let skillElements = findElements d selector
      in if skillElements \<noteq> []
         then (let detailSkillsList = textsOf skillElements
               in if length detailSkillsList > length skillsList then join detailSkillsList
                  else detailSkills d rest skillsList detailedSkills)
         else detailSkills d rest skillsList detailedSkills)"

text \<open>
  The loop over the buttons one selector yields: \<open>Some True\<close> when a displayed button was
  met, \<open>None\<close> when \<^verbatim>\<open>isDisplayed\<close> threw first (the selector's \<^verbatim>\<open>catch\<close> swallows it).
\<close>

fun anyDisplayed :: "element list \<Rightarrow> bool option" where
  "anyDisplayed [] = Some False"
| "anyDisplayed (btn # rest) =
     (case isDisplayed btn of
        None \<Rightarrow> None
      | Some True \<Rightarrow> Some True
      | Some False \<Rightarrow> anyDisplayed rest)"

text \<open>
  The application type on the details page: reset to \<^verbatim>\<open>"Internal"\<close>, set to \<^verbatim>\<open>"External"\<close>
  by the first selector with a displayed button. The later search for a standard Apply
  button only writes a warning and is not modelled.
\<close>

fun externalCheck :: "dom \<Rightarrow> string list \<Rightarrow> string" where
  "externalCheck d [] = ''Internal''"
| "externalCheck d (selector # rest) =
     (if anyDisplayed (findElements d selector) = Some True then ''External''
      else externalCheck d rest)"

definition detailTry :: "card_obs \<Rightarrow> string \<Rightarrow> string list \<Rightarrow> string \<Rightarrow> jserror + (string \<times> string \<times> string)" where
  "detailTry c jobDescription skillsList skills =
     (case openError c of
        Some e \<Rightarrow> Inl e
      | None \<Rightarrow>
          if \<not> newWindowFound c
          then Inl \<lparr>errClass = OtherError,
                    message = ''Could not find new window handle after opening link.''\<rparr>
          else (case switchError c of
                  Some e \<Rightarrow> Inl e
                | None \<Rightarrow>
                    Inr (detailDescription (detailDom c) detailDescriptionSelectors jobDescription,
                         detailSkills (detailDom c) detailSkillsSelectors skillsList skills,
                         externalCheck (detailDom c) externalButtonSelectors)))"

text \<open>
  The \<^verbatim>\<open>try\<close>/\<^verbatim>\<open>catch\<close>/\<^verbatim>\<open>finally\<close> around the details page. The result is the error
  thrown to the card's handler, or the description, the skills and the application type.
  Closing the tab cannot fail the card and is not modelled.
\<close>

definition detailPhase :: "card_obs \<Rightarrow> string \<Rightarrow> string list \<Rightarrow> string \<Rightarrow> jserror + (string \<times> string \<times> string)" where
  "detailPhase c jobDescription skillsList skills =
     (let afterCatch =
            (case detailTry c jobDescription skillsList skills of
               Inl detailError \<Rightarrow>
                 (if errClass detailError = TimeoutError
                  then ''Details page did not load correctly or structure changed.''
                  else jobDescription,
                  skills, ''Internal'')
             | Inr r \<Rightarrow> r)
      in if \<not> switchBackOk c
         then Inl \<lparr>errClass = OtherError, message = ''Failed to switch back to main window''\<rparr>
         else (case pauseError c of
                 Some e \<Rightarrow> Inl e
               | None \<Rightarrow> Inr afterCatch))"

subsection \<open>Acceptance\<close>

text \<open>The only place where the batch, the three counters and the set of URLs change.\<close>

definition addJob :: "config \<Rightarrow> jobData \<Rightarrow> run_state \<Rightarrow> run_state" where
  "addJob cfg jd s =
     (if Application_Type jd = ''Internal'' \<and>
         js_lt (int (internalCount s)) (INTERNAL_JOBS_LIMIT cfg)
      then s\<lparr>jobsToSave := jobsToSave s @ [jd],
             scrapedUrls := insert (Job_URL jd) (scrapedUrls s),
             internalCount := internalCount s + 1,
             newJobsCount := newJobsCount s + 1\<rparr>
      else if Application_Type jd = ''External'' \<and>
              js_lt (int (externalCount s)) (EXTERNAL_JOBS_LIMIT cfg)
      then s\<lparr>jobsToSave := jobsToSave s @ [jd],
             scrapedUrls := insert (Job_URL jd) (scrapedUrls s),
             externalCount := externalCount s + 1,
             newJobsCount := newJobsCount s + 1\<rparr>
      else s)"

subsection \<open>The card's handler and the card as a whole\<close>

datatype card_exit = NextCard | CardDone | BreakCards

text \<open>
  \<open>NextCard\<close> is the \<^verbatim>\<open>continue\<close> of a skipped card (the pacing delay is skipped too),
  \<open>CardDone\<close> falls through to the pacing delay, \<open>BreakCards\<close> leaves the card loop.
\<close>

definition cardCatch :: "jserror \<Rightarrow> card_exit" where
  "cardCatch cardError =
     (if errClass cardError = StaleElementReferenceError then CardDone
      else if includesStr (message cardError) ''Failed to switch back'' then BreakCards
      else CardDone)"

definition orNotAvailable :: "string \<Rightarrow> string" where
  "orNotAvailable v = (if v = [] then ''Not available'' else v)"

text \<open>The description snippet read from the card.\<close>

definition cardDescription :: "card_obs \<Rightarrow> string" where
  "cardDescription c =
     resolveText (cardDom c) descriptionSelectors ''Not available'' ''Not available''"

definition enrich :: "config \<Rightarrow> card_obs \<Rightarrow> string \<Rightarrow> string \<Rightarrow> jserror + jobData" where
  "enrich cfg c jobTitle jobUrl =
     (let companyName = resolveText (cardDom c) companySelectors ''Not available'' ''Not available'';
          loc = resolveLocation (cardDom c) locationSelectors (LOCATION cfg);
          experience = resolveText (cardDom c) experienceSelectors ''Not specified'' ''Not specified'';
          salary = resolveText (cardDom c) salarySelectors ''Not disclosed'' ''Not disclosed'';
          cardSk = cardSkills (cardDom c) skillsSelectors [] ''Not available'';
          jobDescription = cardDescription c
      in case windowHandleError c of
           Some e \<Rightarrow> Inl e
         | None \<Rightarrow>
             (case detailPhase c jobDescription (fst cardSk) (snd cardSk) of
                Inl e \<Rightarrow> Inl e
              | Inr (jobDescription', skills', applicationType) \<Rightarrow>
                  Inr \<lparr>Job_Title = jobTitle,
                       Company_Name = companyName,
                       Location = loc,
                       Experience_Required = experience,
                       Salary = salary,
                       Application_Type = applicationType,
                       Job_URL = jobUrl,
                       Skills = orNotAvailable skills',
                       Job_Description = orNotAvailable jobDescription',
                       Search_Query = JOB_SEARCH_QUERY cfg,
                       Search_Location = LOCATION cfg,
                       Search_Experience = EXPERIENCE cfg\<rparr>))"

definition processCard :: "config \<Rightarrow> card_obs \<Rightarrow> run_state \<Rightarrow> run_state \<times> card_exit" where
  "processCard cfg c s =
     (case scrollError c of
        Some e \<Rightarrow> (s, cardCatch e)
      | None \<Rightarrow>
          (case titleLoop (cardDom c) titleSelectors ''Not available'' None of
             (jobTitle, None) \<Rightarrow> (s, NextCard)
           | (jobTitle, Some jobUrl) \<Rightarrow>
               if jobUrl = [] then (s, NextCard)
               else if jobUrl \<in> scrapedUrls s then (s, NextCard)
               else (case enrich cfg c jobTitle jobUrl of
                       Inl e \<Rightarrow> (s, cardCatch e)
                     | Inr jd \<Rightarrow> (addJob cfg jd s, CardDone))))"

fun cardLoop :: "config \<Rightarrow> card_obs list \<Rightarrow> run_state \<Rightarrow> run_state \<times> jserror option" where
  "cardLoop cfg [] s = (s, None)"
| "cardLoop cfg (c # cs) s =
     (if limitsReached cfg s then (s, None)
      else (case processCard cfg c s of
              (s', NextCard) \<Rightarrow> cardLoop cfg cs s'
            | (s', BreakCards) \<Rightarrow> (s', None)
            | (s', CardDone) \<Rightarrow>
                (case pacingError c of
                   Some e \<Rightarrow> (s', Some e)
                 | None \<Rightarrow> cardLoop cfg cs s')))"

section \<open>Session management\<close>

record status_obs =
  statusUrl :: "string option"
  loggedInIndicatorShown :: bool

text \<open>
  \<^verbatim>\<open>checkIfLoggedIn\<close>: the current URL names a members-only area, or one of the logged-in
  indicators is located and displayed. Everything else (a login button, or nothing
  conclusive) answers false.
\<close>

definition checkIfLoggedIn :: "status_obs \<Rightarrow> bool" where
  "checkIfLoggedIn st =
     ((case statusUrl st of
         None \<Rightarrow> False
       | Some currentUrl \<Rightarrow>
           includesStr currentUrl ''mynaukri'' \<or> includesStr currentUrl ''/v1/user/dashboard'')
      \<or> loggedInIndicatorShown st)"

text \<open>
  What the driver does during one call of \<^verbatim>\<open>loginToNaukri\<close>. The selector cascades of the
  routine are summarised by their outcome: whether a displayed email field, a password
  field and a clickable login button were found, and whether typing, clicking and waiting
  returned without an error.
\<close>

record login_obs =
  firstGetOk :: bool
  urlAfterGet :: "string option"
  emailFieldShown :: bool
  secondGetOk :: bool
  emailFieldShownSecond :: bool
  emailTyped :: bool
  passwordFieldLocated :: bool
  passwordTyped :: bool
  loginButtonFound :: bool
  clickOk :: bool
  waitOk :: bool
  sourceAfterLogin :: "string option"
  statusAfterLogin :: status_obs

text \<open>
  The part of \<^verbatim>\<open>loginToNaukri\<close> from the email field on. A step that throws is caught by
  the routine's outer handler, which returns false, like the explicit early returns.
\<close>

definition loginForm :: "login_obs \<Rightarrow> event list \<Rightarrow> bool \<times> event list" where
  "loginForm lo nav =
     (if \<not> emailTyped lo then (False, nav)
      else if \<not> passwordFieldLocated lo then (False, nav)
      else if \<not> passwordTyped lo then (False, nav)
      else if \<not> loginButtonFound lo then (False, nav)
      else if \<not> clickOk lo then (False, nav)
      else if \<not> waitOk lo then (False, nav)
      else (case sourceAfterLogin lo of
              None \<Rightarrow> (checkIfLoggedIn (statusAfterLogin lo), nav)
            | Some pageSource \<Rightarrow>
                if includesStr (toLowerCase pageSource) ''captcha'' then (False, nav)
                else if includesStr (toLowerCase pageSource) ''verify mobile'' \<or>
                        includesStr (toLowerCase pageSource) ''enter otp'' then (False, nav)
                else (checkIfLoggedIn (statusAfterLogin lo), nav)))"

definition loginToNaukri :: "login_obs \<Rightarrow> string \<Rightarrow> string \<Rightarrow> bool \<times> event list" where
  "loginToNaukri lo email password =
     (if email = [] \<or> password = [] then (False, [])
      else if \<not> firstGetOk lo
      then (False, [LoginNavigate ''https://www.naukri.com/nlogin/login''])
      else (case urlAfterGet lo of
              None \<Rightarrow> (False, [LoginNavigate ''https://www.naukri.com/nlogin/login''])
            | Some currentUrl \<Rightarrow>
                if emailFieldShown lo
                then loginForm lo [LoginNavigate ''https://www.naukri.com/nlogin/login'']
                else if \<not> secondGetOk lo \<or> \<not> emailFieldShownSecond lo
                then (False, [LoginNavigate ''https://www.naukri.com/nlogin/login'',
                              LoginNavigate ''https://login.naukri.com/nLogin/Login.php''])
                else loginForm lo [LoginNavigate ''https://www.naukri.com/nlogin/login'',
                                   LoginNavigate ''https://login.naukri.com/nLogin/Login.php'']))"

text \<open>
  \<^verbatim>\<open>initializeDriver\<close>: up to \<open>MAX_RETRIES\<close> builds; \<open>build k\<close> tells whether the build
  numbered \<open>k\<close> succeeds. The result is false when the routine throws.
\<close>

function initializeDriver :: "(nat \<Rightarrow> bool) \<Rightarrow> nat \<Rightarrow> bool \<times> event list" where
  "initializeDriver build retries =
     (if retries < MAX_RETRIES
      then (if build retries then (True, [BuildDriver True])
            else if retries + 1 \<ge> MAX_RETRIES then (False, [BuildDriver False])
            else (case initializeDriver build (retries + 1) of
                    (ok, ev) \<Rightarrow> (ok, BuildDriver False # ev)))
      else (False, []))"
  by pat_completeness auto
termination
  by (relation "measure (\<lambda>(build, retries). MAX_RETRIES - retries)") auto

declare initializeDriver.simps [simp del]

section \<open>One search page\<close>

record page_obs =
  getError :: "jserror option"
  containerLocated :: "string \<Rightarrow> bool"
  pageDom :: dom
  pageSource :: "string option"
  cardsBy :: "string \<Rightarrow> card_obs list"
  rebuild :: "nat \<Rightarrow> bool"
  relogin :: login_obs
  nextPageError :: "jserror option"

text \<open>
  \<open>getError\<close>: loading the page or the settle delay throws.
  \<open>containerLocated\<close>: the wait for a container selector finds an element.
  \<open>pageDom\<close>: lookups made on the driver itself.
  \<open>pageSource\<close>: the page content (\<open>None\<close> when it cannot be read, taken as empty).
  \<open>cardsBy\<close>: the cards a card selector yields inside the container.
  \<open>rebuild\<close>, \<open>relogin\<close>: the driver builds and the login of a recovery on this page.
  \<open>nextPageError\<close>: the delay before the next page throws.
\<close>

definition jobListContainerSelectors :: "string list" where
  "jobListContainerSelectors =
     [''div.styles_job-listing-container__OCfZC'', ''div.list'', ''div.listContainer'',
      ''section.listContainer'',
      ''div[data-testid='' @ [CHR 0x27] @ ''srp-jobList-container'' @ [CHR 0x27] @ '']'',
      ''div.srp-jobtuple-wrapper'', ''div.srp_container'', ''article.jobTuple'']"

definition directCardSelectors :: "string list" where
  "directCardSelectors =
     [''article.jobTuple'', ''div.srp-jobtuple-wrapper'', ''div.jobTuple'', ''div.jobTupleHeader'',
      ''div[data-job-id]'']"

definition jobCardSelectors :: "string list" where
  "jobCardSelectors =
     [''article.jobTuple'', ''div.srp-jobtuple-wrapper'', ''div.jobTuple'', ''div.jobTupleHeader'']"

definition noResultsSelectors :: "string list" where
  "noResultsSelectors =
     [''div.styles_no-results-container'', ''div.no-results'',
      ''//*[contains(text(), '' @ [CHR 0x27] @ ''No matching jobs found'' @ [CHR 0x27] @ '')]'',
      ''//*[contains(text(), '' @ [CHR 0x27] @ ''no jobs found'' @ [CHR 0x27] @ '')]'']"

fun firstCards :: "(string \<Rightarrow> card_obs list) \<Rightarrow> string list \<Rightarrow> card_obs list" where
  "firstCards f [] = []"
| "firstCards f (cardSelector # rest) =
     (if f cardSelector \<noteq> [] then f cardSelector else firstCards f rest)"

text \<open>An \<^verbatim>\<open>isDisplayed\<close> that throws ends the search: the handler is outside the loop.\<close>

fun noResultsFound :: "dom \<Rightarrow> string list \<Rightarrow> bool" where
  "noResultsFound d [] = False"
| "noResultsFound d (nrSelector # rest) =
     (case findElement d nrSelector of
        None \<Rightarrow> noResultsFound d rest
      | Some el \<Rightarrow>
          (case isDisplayed el of
             None \<Rightarrow> False
           | Some True \<Rightarrow> True
           | Some False \<Rightarrow> noResultsFound d rest))"

datatype page_exit = TryDone | BreakPages | Thrown jserror

definition nothingFound :: "page_obs \<Rightarrow> bool" where
  "nothingFound po =
     (\<not> list_ex (containerLocated po) jobListContainerSelectors \<and>
      \<not> list_ex (\<lambda>cardSelector. findElement (pageDom po) cardSelector \<noteq> None) directCardSelectors)"

definition sourceOf :: "page_obs \<Rightarrow> string" where
  "sourceOf po = (case pageSource po of None \<Rightarrow> [] | Some t \<Rightarrow> t)"

definition captchaDetected :: "page_obs \<Rightarrow> bool" where
  "captchaDetected po = (nothingFound po \<and> includesStr (toLowerCase (sourceOf po)) ''captcha'')"

text \<open>
  The body of the \<^verbatim>\<open>try\<close> of one page after the fetch. With neither a container nor a
  card on the first page the container stays \<^verbatim>\<open>null\<close> and every card lookup yields the
  empty list.
\<close>

definition pageTry :: "config \<Rightarrow> nat \<Rightarrow> page_obs \<Rightarrow> run_state \<Rightarrow> run_state \<times> page_exit" where
  "pageTry cfg page po s =
     (case getError po of
        Some e \<Rightarrow> (s, Thrown e)
      | None \<Rightarrow>
          if captchaDetected po
          then (s, Thrown \<lparr>errClass = OtherError,
                           message = ''CAPTCHA challenge detected on results page''\<rparr>)
          else if nothingFound po \<and>
                  (includesStr (sourceOf po) ''No matching jobs found'' \<or>
                   includesStr (sourceOf po) ''no jobs found'')
          then (s, BreakPages)
          else if nothingFound po \<and> page > 1 then (s, BreakPages)
          else (let jobCards = (if nothingFound po then []
                                else firstCards (cardsBy po) jobCardSelectors)
                in if jobCards = [] \<and> page > 1 then (s, BreakPages)
                   else if jobCards = [] \<and> page = 1 \<and>
                           noResultsFound (pageDom po) noResultsSelectors
                   then (s, BreakPages)
                   else (case cardLoop cfg jobCards s of
                           (s', Some e) \<Rightarrow> (s', Thrown e)
                         | (s', None) \<Rightarrow> (s', TryDone))))"

section \<open>The run coordinator\<close>

datatype page_next = Advance | Recovered | Stop | Abort jserror

text \<open>
  \<open>Advance\<close>: the end of the loop body is reached (increment, then the delay).
  \<open>Recovered\<close>: increment and \<^verbatim>\<open>continue\<close>. \<open>Stop\<close>: \<^verbatim>\<open>break\<close>.
  \<open>Abort\<close>: an error leaves the page loop for the outermost handler.
\<close>

definition sessionLost :: "string \<Rightarrow> bool" where
  "sessionLost msg =
     (includesStr msg ''session'' \<or> includesStr msg ''crashed'' \<or>
      includesStr msg ''disconnected'' \<or> includesStr msg ''target closed'')"

definition recover :: "config \<Rightarrow> page_obs \<Rightarrow> run_state \<Rightarrow> run_state \<times> page_next" where
  "recover cfg po s =
     (case initializeDriver (rebuild po) 0 of
        (False, builds) \<Rightarrow>
          (s\<lparr>events := events s @ [QuitDriver] @ builds\<rparr>,
           Abort \<lparr>errClass = OtherError,
                  message = ''Failed to initialize WebDriver after 3 attempts.''\<rparr>)
      | (True, builds) \<Rightarrow>
          (case loginToNaukri (relogin po) (EMAIL cfg) (PASSWORD cfg) of
             (ok, navs) \<Rightarrow>
               (s\<lparr>isLoggedIn := ok,
                   events := events s @ [QuitDriver] @ builds @ navs @
                             (if ok then [SaveCookies] else [])\<rparr>,
                Recovered)))"

definition pageCatch :: "config \<Rightarrow> page_obs \<Rightarrow> jserror \<Rightarrow> run_state \<Rightarrow> run_state \<times> page_next" where
  "pageCatch cfg po pageError s =
     (if errClass pageError = TimeoutError then (s, Advance)
      else if sessionLost (message pageError) then recover cfg po s
      else if includesStr (message pageError) ''CAPTCHA'' then (s, Stop)
      else (s, Advance))"

definition pageStep :: "config \<Rightarrow> nat \<Rightarrow> page_obs \<Rightarrow> run_state \<Rightarrow> run_state \<times> page_next" where
  "pageStep cfg page po s =
     (case pageTry cfg page po (s\<lparr>events := events s @ [Fetch (currentPageUrl cfg page)]\<rparr>) of
        (s', TryDone) \<Rightarrow> (s', Advance)
      | (s', BreakPages) \<Rightarrow> (s', Stop)
      | (s', Thrown pageError) \<Rightarrow> pageCatch cfg po pageError s')"

text \<open>
  The \<^verbatim>\<open>while\<close> loop. The result carries the error that reached the outermost handler, if
  any. \<open>env\<close> gives what the driver does on each page number.
\<close>

function pageLoop :: "config \<Rightarrow> (nat \<Rightarrow> page_obs) \<Rightarrow> nat \<Rightarrow> run_state \<Rightarrow> run_state \<times> jserror option" where
  "pageLoop cfg env page s =
     (if \<not> js_le (int page) (MAX_PAGES_TO_SEARCH cfg) then (s, None)
      else if limitsReached cfg s then (s, None)
      else (case pageStep cfg page (env page) s of
              (s', Stop) \<Rightarrow> (s', None)
            | (s', Abort e) \<Rightarrow> (s', Some e)
            | (s', Recovered) \<Rightarrow> pageLoop cfg env (page + 1) s'
            | (s', Advance) \<Rightarrow>
                (case nextPageError (env page) of
                   Some e \<Rightarrow> (s', Some e)
                 | None \<Rightarrow> pageLoop cfg env (page + 1) s')))"
  by pat_completeness auto
termination
  by (relation "measure (\<lambda>(cfg, env, page, s).
          (case MAX_PAGES_TO_SEARCH cfg of NaN \<Rightarrow> 0 | Num m \<Rightarrow> nat (m + 1 - int page)))")
     (auto split: jsnum.splits)

declare pageLoop.simps [simp del]

section \<open>The run\<close>

record startup_obs =
  mongoError :: "jserror option"
  existingJobUrls :: "string option list"
  firstBuild :: "nat \<Rightarrow> bool"
  homeError :: "jserror option"
  cookiesRestored :: bool
  statusAfterRestore :: status_obs
  deleteCookiesError :: "jserror option"
  firstLogin :: login_obs

text \<open>
  \<open>mongoError\<close>: connecting to the store or scanning it throws (the run then ends at
  once with an empty batch; what the set of known URLs holds by then is not modelled).
  \<open>existingJobUrls\<close>: the \<^verbatim>\<open>"Job URL"\<close> field of each stored document (\<open>None\<close> when absent).
  \<open>firstBuild\<close>: the driver builds at start. \<open>homeError\<close>: loading the site root throws.
  \<open>cookiesRestored\<close>: the result of \<^verbatim>\<open>tryRestoreCookies\<close>.
  \<open>deleteCookiesError\<close>: clearing the cookies after a failed status check throws.
\<close>

definition seedUrls :: "string option list \<Rightarrow> string set" where
  "seedUrls docs = set (concat (map (\<lambda>d. case d of None \<Rightarrow> [] | Some u \<Rightarrow> if u = [] then [] else [u]) docs))"

definition initialState :: run_state where
  "initialState =
     \<lparr>jobsToSave = [], internalCount = 0, externalCount = 0, newJobsCount = 0,
      scrapedUrls = {}, isLoggedIn = False, events = []\<rparr>"

definition loginPhase :: "config \<Rightarrow> startup_obs \<Rightarrow> run_state \<Rightarrow> run_state \<times> jserror option" where
  "loginPhase cfg st s =
     (let restored = (cookiesRestored st \<and> checkIfLoggedIn (statusAfterRestore st))
      in if cookiesRestored st \<and> \<not> restored \<and> deleteCookiesError st \<noteq> None
         then (s, deleteCookiesError st)
         else if \<not> restored \<and> EMAIL cfg \<noteq> [] \<and> PASSWORD cfg \<noteq> []
         then (case loginToNaukri (firstLogin st) (EMAIL cfg) (PASSWORD cfg) of
                 (ok, navs) \<Rightarrow>
                   (s\<lparr>isLoggedIn := ok,
                      events := events s @ navs @ (if ok then [SaveCookies] else [])\<rparr>, None))
         else (s\<lparr>isLoggedIn := restored\<rparr>, None))"

text \<open>
  \<^verbatim>\<open>scrapeNaukriJobs\<close> up to the end of the page loop: the state whose batch is then
  persisted, and the error caught by the outermost handler, if any.
\<close>

definition scrapeNaukriJobs :: "config \<Rightarrow> startup_obs \<Rightarrow> (nat \<Rightarrow> page_obs) \<Rightarrow> run_state \<times> jserror option" where
  "scrapeNaukriJobs cfg st env =
     (case mongoError st of
        Some e \<Rightarrow> (initialState, Some e)
      | None \<Rightarrow>
          (case initializeDriver (firstBuild st) 0 of
             (False, builds) \<Rightarrow>
               (initialState\<lparr>scrapedUrls := seedUrls (existingJobUrls st), events := builds\<rparr>,
                Some \<lparr>errClass = OtherError,
                      message = ''Failed to initialize WebDriver after 3 attempts.''\<rparr>)
           | (True, builds) \<Rightarrow>
               (case homeError st of
                  Some e \<Rightarrow>
                    (initialState\<lparr>scrapedUrls := seedUrls (existingJobUrls st), events := builds\<rparr>,
                     Some e)
                | None \<Rightarrow>
                    (case loginPhase cfg st
                            (initialState\<lparr>scrapedUrls := seedUrls (existingJobUrls st),
                                          events := builds\<rparr>) of
                       (s, Some e) \<Rightarrow> (s, Some e)
                     | (s, None) \<Rightarrow> pageLoop cfg env 1 s))))"

definition fetches :: "event list \<Rightarrow> string list" where
  "fetches evs = concat (map (\<lambda>ev. case ev of Fetch u \<Rightarrow> [u] | _ \<Rightarrow> []) evs)"

section \<open>Properties the specification states\<close>

definition batchUrls :: "run_state \<Rightarrow> string list" where
  "batchUrls s = map Job_URL (jobsToSave s)"

text \<open>The URL the title search resolves for a card.\<close>

definition cardUrl :: "card_obs \<Rightarrow> string option" where
  "cardUrl c = snd (titleLoop (cardDom c) titleSelectors ''Not available'' None)"

definition urlsKnown :: "run_state \<Rightarrow> bool" where
  "urlsKnown s = (distinct (batchUrls s) \<and> set (batchUrls s) \<subseteq> scrapedUrls s)"

text \<open>The batch against a set of URLs known before the run.\<close>

definition seedKept :: "string set \<Rightarrow> run_state \<Rightarrow> bool" where
  "seedKept seed s = (urlsKnown s \<and> seed \<subseteq> scrapedUrls s \<and> set (batchUrls s) \<inter> seed = {})"

definition countsAgree :: "run_state \<Rightarrow> bool" where
  "countsAgree s =
     (length (jobsToSave s) = internalCount s + externalCount s \<and>
      newJobsCount s = length (jobsToSave s))"

text \<open>A counter is within its limit when it is zero or at most the limit.\<close>

definition withinLimit :: "nat \<Rightarrow> jsnum \<Rightarrow> bool" where
  "withinLimit n lim = (n = 0 \<or> js_le (int n) lim)"

definition limitsKept :: "config \<Rightarrow> run_state \<Rightarrow> bool" where
  "limitsKept cfg s =
     (withinLimit (internalCount s) (INTERNAL_JOBS_LIMIT cfg) \<and>
      withinLimit (externalCount s) (EXTERNAL_JOBS_LIMIT cfg))"

definition typeKnown :: "jobData \<Rightarrow> bool" where
  "typeKnown jd = (Application_Type jd = ''Internal'' \<or> Application_Type jd = ''External'')"

text \<open>Positive evidence of an external redirect: some external-apply selector yields a displayed button.\<close>

definition externalEvidence :: "card_obs \<Rightarrow> bool" where
  "externalEvidence c =
     list_ex (\<lambda>selector. list_ex (\<lambda>btn. isDisplayed btn = Some True)
                                  (findElements (detailDom c) selector))
             externalButtonSelectors"

text \<open>The details page was opened: nothing threw before its fields are read.\<close>

definition detailOpened :: "card_obs \<Rightarrow> bool" where
  "detailOpened c = (openError c = None \<and> newWindowFound c \<and> switchError c = None)"

text \<open>The description texts the details page offers, one per selector (empty when there is none).\<close>

definition detailTexts :: "card_obs \<Rightarrow> string list" where
  "detailTexts c =
     map (\<lambda>selector. safeGetText (findElement (detailDom c) selector) []) detailDescriptionSelectors"

text \<open>
  A result page that contains cards and on which no call of the driver throws at the
  level of the page.
\<close>

definition pageHasCards :: "page_obs \<Rightarrow> bool" where
  "pageHasCards po =
     (getError po = None \<and> \<not> nothingFound po \<and>
      firstCards (cardsBy po) jobCardSelectors \<noteq> [] \<and>
      list_all (\<lambda>c. pacingError c = None) (firstCards (cardsBy po) jobCardSelectors) \<and>
      nextPageError po = None)"

section \<open>Sample inputs\<close>

definition noElements :: dom where
  "noElements = \<lparr>findElement = (\<lambda>selector. None), findElements = (\<lambda>selector. [])\<rparr>"

definition sampleLogin :: login_obs where
  "sampleLogin =
     \<lparr>firstGetOk = True, urlAfterGet = Some ''https://www.naukri.com/nlogin/login'',
      emailFieldShown = True, secondGetOk = True, emailFieldShownSecond = True,
      emailTyped = True, passwordFieldLocated = True, passwordTyped = True,
      loginButtonFound = True, clickOk = True, waitOk = True, sourceAfterLogin = Some ''welcome'',
      statusAfterLogin = \<lparr>statusUrl = Some ''https://www.naukri.com/mynaukri'',
                           loggedInIndicatorShown = False\<rparr>\<rparr>"

definition sampleConfig :: config where
  "sampleConfig =
     \<lparr>EMAIL = [], PASSWORD = [], JOB_SEARCH_QUERY = ''Data Analyst'', LOCATION = ''Bangalore'',
      EXPERIENCE = ''0'', INTERNAL_JOBS_LIMIT = Num 15, EXTERNAL_JOBS_LIMIT = Num 5,
      MAX_PAGES_TO_SEARCH = Num 3\<rparr>"

definition experiencedConfig :: config where
  "experiencedConfig = sampleConfig\<lparr>EXPERIENCE := ''3''\<rparr>"

definition credentialedConfig :: config where
  "credentialedConfig = sampleConfig\<lparr>EMAIL := ''user@example.com'', PASSWORD := ''secret''\<rparr>"

definition negativeLimitConfig :: config where
  "negativeLimitConfig = sampleConfig\<lparr>INTERNAL_JOBS_LIMIT := Num (- 1)\<rparr>"

text \<open>
  A card with a title link, a 30-character snippet, and a details page whose description
  is \<open>detail\<close>; \<open>ext\<close> tells whether the button for applying on the company site is shown.
\<close>

definition sampleCard :: "string \<Rightarrow> string \<Rightarrow> bool \<Rightarrow> card_obs" where
  "sampleCard url detail ext =
     \<lparr>scrollError = None,
      cardDom = \<lparr>findElement = (\<lambda>selector.
                     if selector = ''a.title''
                     then Some \<lparr>getText = Some ''Analyst'', getHref = Some url, isDisplayed = Some True\<rparr>
                     else if selector = ''span.job-desc''
                     then Some \<lparr>getText = Some ''Builds reports for the team...'', getHref = None,
                                isDisplayed = Some True\<rparr>
                     else None),
                 findElements = (\<lambda>selector. [])\<rparr>,
      windowHandleError = None, openError = None, newWindowFound = True, switchError = None,
      detailDom = \<lparr>findElement = (\<lambda>selector.
                       if selector = ''section.job-desc''
                       then Some \<lparr>getText = Some detail, getHref = None, isDisplayed = Some True\<rparr>
                       else None),
                   findElements = (\<lambda>selector.
                       if ext \<and> selector = ''.company-site-button''
                       then [\<lparr>getText = Some ''Apply on company site'', getHref = None,
                              isDisplayed = Some True\<rparr>]
                       else [])\<rparr>,
      switchBackOk = True, pauseError = None, pacingError = None\<rparr>"

definition longDetail :: string where
  "longDetail = ''Builds reports for the team and maintains the dashboards of the sales group.''"

definition samplePage :: "card_obs list \<Rightarrow> page_obs" where
  "samplePage cards =
     \<lparr>getError = None,
      containerLocated = (\<lambda>selector. selector = ''div.list''),
      pageDom = noElements,
      pageSource = Some ''<html>jobs</html>'',
      cardsBy = (\<lambda>selector. if selector = ''article.jobTuple'' then cards else []),
      rebuild = (\<lambda>k. True),
      relogin = sampleLogin,
      nextPageError = None\<rparr>"

definition samplePages :: "nat \<Rightarrow> page_obs" where
  "samplePages p =
     samplePage [sampleCard ''https://www.naukri.com/job-2'' [] False,
                 sampleCard ''https://www.naukri.com/job-1'' [] False,
                 sampleCard ''https://www.naukri.com/job-3'' [] True]"

definition captchaPages :: "nat \<Rightarrow> page_obs" where
  "captchaPages p =
     (samplePage [])\<lparr>containerLocated := (\<lambda>selector. False),
                      pageSource := Some ''<html>Please solve the Captcha</html>''\<rparr>"

definition crashError :: jserror where
  "crashError = \<lparr>errClass = OtherError, message = ''session deleted because of page crash''\<rparr>"

definition timeoutCrashError :: jserror where
  "timeoutCrashError =
     \<lparr>errClass = TimeoutError,
      message = ''timeout: cannot determine loading status from tab crashed''\<rparr>"

text \<open>Every page load dies with the session and no driver can be built again.\<close>

definition deadPages :: "nat \<Rightarrow> page_obs" where
  "deadPages p = (samplePage [])\<lparr>getError := Some crashError, rebuild := (\<lambda>k. False)\<rparr>"

text \<open>The first page load dies with the session, the driver is rebuilt at the second attempt.\<close>

definition crashOncePages :: "nat \<Rightarrow> page_obs" where
  "crashOncePages p =
     (if p = 1 then (samplePage [])\<lparr>getError := Some crashError, rebuild := (\<lambda>k. k = 1)\<rparr>
      else samplePages p)"

definition timeoutCrashPage :: page_obs where
  "timeoutCrashPage = (samplePage [])\<lparr>getError := Some timeoutCrashError\<rparr>"

definition sampleStartup :: startup_obs where
  "sampleStartup =
     \<lparr>mongoError = None, existingJobUrls = [Some ''https://www.naukri.com/job-1'', None],
      firstBuild = (\<lambda>k. True), homeError = None, cookiesRestored = False,
      statusAfterRestore = \<lparr>statusUrl = None, loggedInIndicatorShown = False\<rparr>,
      deleteCookiesError = None, firstLogin = sampleLogin\<rparr>"

definition knownState :: run_state where
  "knownState = initialState\<lparr>scrapedUrls := {''https://www.naukri.com/job-1''}\<rparr>"

definition sampleJob :: jobData where
  "sampleJob =
     \<lparr>Job_Title = ''Analyst'', Company_Name = ''Not available'', Location = ''Bangalore'',
      Experience_Required = ''Not specified'', Salary = ''Not disclosed'',
      Application_Type = ''Internal'', Job_URL = ''https://www.naukri.com/job-2'',
      Skills = ''Not available'', Job_Description = ''Not available'',
      Search_Query = ''Data Analyst'', Search_Location = ''Bangalore'', Search_Experience = ''0''\<rparr>"

definition sampleExternalJob :: jobData where
  "sampleExternalJob =
     sampleJob\<lparr>Application_Type := ''External'', Job_URL := ''https://www.naukri.com/job-3'',
               Job_Description := ''Builds reports for the team...''\<rparr>"

section \<open>How the state changes\<close>

text \<open>
  A card leaves the state as it is or passes it through the acceptance step with a
  record whose URL is non-empty and not yet known. Everything else the coordinator does
  to the state touches the login flag and the record of driver calls only. A property
  that the acceptance step and those updates keep is therefore kept by the whole run.
\<close>

lemma enrich_fields:
  "enrich cfg c t u = Inr jd \<Longrightarrow> Job_URL jd = u \<and> Job_Title jd = t"
  unfolding enrich_def by (auto simp: Let_def split: option.splits sum.splits prod.splits)

lemma processCard_cases:
  assumes "processCard cfg c s = (s', x)"
  shows "s' = s \<or> (\<exists>jd. Job_URL jd \<notin> scrapedUrls s \<and> Job_URL jd \<noteq> [] \<and> s' = addJob cfg jd s)"
  using assms unfolding processCard_def
  by (auto split: option.splits prod.splits if_splits sum.splits dest: enrich_fields)

lemma processCard_inv:
  assumes step: "\<And>s jd. P s \<Longrightarrow> Job_URL jd \<notin> scrapedUrls s \<Longrightarrow> Job_URL jd \<noteq> [] \<Longrightarrow> P (addJob cfg jd s)"
    and r: "processCard cfg c s = (s', x)" and "P s"
  shows "P s'"
  using processCard_cases [OF r] step \<open>P s\<close> by auto

lemma cardLoop_inv:
  assumes step: "\<And>s jd. P s \<Longrightarrow> Job_URL jd \<notin> scrapedUrls s \<Longrightarrow> Job_URL jd \<noteq> [] \<Longrightarrow> P (addJob cfg jd s)"
  shows "cardLoop cfg cs s = (s', e) \<Longrightarrow> P s \<Longrightarrow> P s'"
proof (induction cs arbitrary: s)
  case Nil
  then show ?case by simp
next
  case (Cons c cs)
  obtain s1 x where r: "processCard cfg c s = (s1, x)" by (cases "processCard cfg c s")
  have p1: "P s1" using step r Cons.prems(2) by (rule processCard_inv)
  show ?case
  proof (cases "limitsReached cfg s")
    case True
    then show ?thesis using Cons.prems by simp
  next
    case False
    then show ?thesis using Cons.prems(1) r p1 Cons.IH [of s1]
      by (cases x) (auto split: option.splits)
  qed
qed

lemma pageTry_inv:
  assumes step: "\<And>s jd. P s \<Longrightarrow> Job_URL jd \<notin> scrapedUrls s \<Longrightarrow> Job_URL jd \<noteq> [] \<Longrightarrow> P (addJob cfg jd s)"
    and r: "pageTry cfg page po s = (s', x)" and "P s"
  shows "P s'"
proof -
  have "P s1" if "cardLoop cfg cs s = (s1, e)" for cs s1 e
    using step that \<open>P s\<close> by (rule cardLoop_inv)
  then show ?thesis using \<open>P s\<close> r unfolding pageTry_def
    by (auto simp: Let_def split: option.splits prod.splits if_splits)
qed

lemma recover_inv:
  assumes frame: "\<And>s l e. P s \<Longrightarrow> P (s\<lparr>isLoggedIn := l, events := e\<rparr>)"
    and r: "recover cfg po s = (s', x)" and "P s"
  shows "P s'"
proof -
  have ev: "P (s\<lparr>events := e\<rparr>)" for e
    using frame [OF \<open>P s\<close>, where l = "isLoggedIn s" and e = e] by simp
  show ?thesis using r unfolding recover_def
    by (auto split: prod.splits bool.splits intro: ev frame [OF \<open>P s\<close>])
qed

lemma pageCatch_inv:
  assumes frame: "\<And>s l e. P s \<Longrightarrow> P (s\<lparr>isLoggedIn := l, events := e\<rparr>)"
    and r: "pageCatch cfg po e s = (s', x)" and "P s"
  shows "P s'"
  using r \<open>P s\<close> recover_inv [of P, OF frame _ \<open>P s\<close>] unfolding pageCatch_def
  by (auto split: if_splits)

lemma pageStep_inv:
  assumes step: "\<And>s jd. P s \<Longrightarrow> Job_URL jd \<notin> scrapedUrls s \<Longrightarrow> Job_URL jd \<noteq> [] \<Longrightarrow> P (addJob cfg jd s)"
    and frame: "\<And>s l e. P s \<Longrightarrow> P (s\<lparr>isLoggedIn := l, events := e\<rparr>)"
    and r: "pageStep cfg page po s = (s', x)" and "P s"
  shows "P s'"
proof -
  let ?s0 = "s\<lparr>events := events s @ [Fetch (currentPageUrl cfg page)]\<rparr>"
  have p0: "P ?s0"
    using frame [OF \<open>P s\<close>, where l = "isLoggedIn s"] by simp
  obtain s1 y where t: "pageTry cfg page po ?s0 = (s1, y)" by (cases "pageTry cfg page po ?s0")
  have p1: "P s1" using step t p0 by (rule pageTry_inv)
  have "P s2" if "pageCatch cfg po e s1 = (s2, z)" for e s2 z
    using frame that p1 by (rule pageCatch_inv)
  then show ?thesis using r t p1 unfolding pageStep_def by (cases y) auto
qed

lemma pageLoop_inv:
  assumes step: "\<And>s jd. P s \<Longrightarrow> Job_URL jd \<notin> scrapedUrls s \<Longrightarrow> Job_URL jd \<noteq> [] \<Longrightarrow> P (addJob cfg jd s)"
    and frame: "\<And>s l e. P s \<Longrightarrow> P (s\<lparr>isLoggedIn := l, events := e\<rparr>)"
  shows "P s \<Longrightarrow> P (fst (pageLoop cfg env page s))"
  using step
proof (induction cfg env page s rule: pageLoop.induct)
  case (1 cfg env page s)
  note stp = "1.prems"(2)
  obtain s' x where r: "pageStep cfg page (env page) s = (s', x)"
    by (cases "pageStep cfg page (env page) s")
  have s': "P s'" using stp frame r "1.prems"(1) by (rule pageStep_inv)
  show ?case
  proof (cases "\<not> js_le (int page) (MAX_PAGES_TO_SEARCH cfg) \<or> limitsReached cfg s")
    case True
    then show ?thesis using "1.prems"(1) by (auto simp: pageLoop.simps [of cfg env page s])
  next
    case False
    then have c: "\<not> \<not> js_le (int page) (MAX_PAGES_TO_SEARCH cfg)" "\<not> limitsReached cfg s" by auto
    show ?thesis
    proof (cases x)
      case Advance
      show ?thesis
      proof (cases "nextPageError (env page)")
        case None
        from "1.IH"(1) [OF c r [symmetric] Advance None s' stp]
        show ?thesis using c r Advance None by (simp add: pageLoop.simps [of cfg env page s])
      next
        case (Some e)
        then show ?thesis using c r Advance s' by (simp add: pageLoop.simps [of cfg env page s])
      qed
    next
      case Recovered
      from "1.IH"(2) [OF c r [symmetric] Recovered s' stp]
      show ?thesis using c r Recovered by (simp add: pageLoop.simps [of cfg env page s])
    next
      case Stop
      then show ?thesis using c r s' by (simp add: pageLoop.simps [of cfg env page s])
    next
      case (Abort e)
      then show ?thesis using c r s' by (simp add: pageLoop.simps [of cfg env page s])
    qed
  qed
qed

lemma initialState_full: "initialState = initialState\<lparr>scrapedUrls := {}, isLoggedIn := False, events := []\<rparr>"
    by (simp add: initialState_def)

lemma initialState_events: "initialState\<lparr>scrapedUrls := X, events := e\<rparr> =
           initialState\<lparr>scrapedUrls := X, isLoggedIn := False, events := e\<rparr>" 
    by (simp add: initialState_def)

lemma loginPhase_shape: "loginPhase cfg st (initialState\<lparr>scrapedUrls := Y, isLoggedIn := False, events := builds\<rparr>) = (s1, r)
  \<Longrightarrow> \<exists>l e. s1 = initialState\<lparr>scrapedUrls := Y, isLoggedIn := l, events := e\<rparr>"
        unfolding loginPhase_def
        by (auto simp: Let_def initialState_def split: if_splits prod.splits)

lemma scrape_aborted:
  assumes "mongoError st = None" "initializeDriver (firstBuild st) 0 = (ok, builds)"
    "\<not> (ok \<and> homeError st = None)"
  shows "\<exists>err. scrapeNaukriJobs cfg st env =
     (initialState\<lparr>scrapedUrls := seedUrls (existingJobUrls st), isLoggedIn := False, events := builds\<rparr>, Some err)"
proof (cases ok)
  case False
  then show ?thesis using assms by (simp add: scrapeNaukriJobs_def initialState_events)
next
  case True
  then obtain e where "homeError st = Some e" using assms by auto
  then show ?thesis using True assms by (simp add: scrapeNaukriJobs_def initialState_events)
qed

lemma scrape_looped:
  assumes "mongoError st = None" "initializeDriver (firstBuild st) 0 = (True, builds)"
    "homeError st = None"
    "loginPhase cfg st (initialState\<lparr>scrapedUrls := seedUrls (existingJobUrls st), isLoggedIn := False, events := builds\<rparr>) = (s1, r)"
  shows "scrapeNaukriJobs cfg st env = (case r of Some e \<Rightarrow> (s1, Some e) | None \<Rightarrow> pageLoop cfg env 1 s1)"
  using assms by (simp add: scrapeNaukriJobs_def initialState_events split: option.splits)

lemma scrape_cases:
  "(\<exists>X l e err. scrapeNaukriJobs cfg st env =
       (initialState\<lparr>scrapedUrls := X, isLoggedIn := l, events := e\<rparr>, Some err)) \<or>
   (\<exists>l e. scrapeNaukriJobs cfg st env =
       pageLoop cfg env 1
         (initialState\<lparr>scrapedUrls := seedUrls (existingJobUrls st), isLoggedIn := l, events := e\<rparr>))"
proof (cases "mongoError st")
  case (Some e)
  then have "scrapeNaukriJobs cfg st env =
      (initialState\<lparr>scrapedUrls := {}, isLoggedIn := False, events := []\<rparr>, Some e)"
    using initialState_full by (simp add: scrapeNaukriJobs_def)
  then show ?thesis by blast
next
  case None
  obtain ok builds where b: "initializeDriver (firstBuild st) 0 = (ok, builds)"
    by (cases "initializeDriver (firstBuild st) 0")
  let ?s0 = "initialState\<lparr>scrapedUrls := seedUrls (existingJobUrls st), isLoggedIn := False, events := builds\<rparr>"
  show ?thesis
  proof (cases "ok \<and> homeError st = None")
    case False
    from scrape_aborted [OF None b False] show ?thesis by blast
  next
    case True
    obtain s1 r where l: "loginPhase cfg st ?s0 = (s1, r)" by (cases "loginPhase cfg st ?s0")
    from loginPhase_shape [OF l] obtain l' e where
      s1: "s1 = initialState\<lparr>scrapedUrls := seedUrls (existingJobUrls st), isLoggedIn := l', events := e\<rparr>"
      by blast
    have b': "initializeDriver (firstBuild st) 0 = (True, builds)" using b True by simp
    have h: "homeError st = None" using True by simp
    note eq = scrape_looped [OF None b' h l, of env]
    show ?thesis
    proof (cases r)
      case None
      then have "scrapeNaukriJobs cfg st env = pageLoop cfg env 1 s1" using eq by simp
      then show ?thesis unfolding s1 by blast
    next
      case (Some err)
      then have "scrapeNaukriJobs cfg st env = (s1, Some err)" using eq by simp
      then show ?thesis unfolding s1 by blast
    qed
  qed
qed

lemma scrape_inv:
  assumes step: "\<And>s jd. P s \<Longrightarrow> Job_URL jd \<notin> scrapedUrls s \<Longrightarrow> Job_URL jd \<noteq> [] \<Longrightarrow> P (addJob cfg jd s)"
    and frame: "\<And>s l e. P s \<Longrightarrow> P (s\<lparr>isLoggedIn := l, events := e\<rparr>)"
    and start: "P (initialState\<lparr>scrapedUrls := seedUrls (existingJobUrls st)\<rparr>)"
    and abort: "\<And>X. P (initialState\<lparr>scrapedUrls := X\<rparr>)"
  shows "P (fst (scrapeNaukriJobs cfg st env))"
proof -
  have a: "P (initialState\<lparr>scrapedUrls := X, isLoggedIn := l, events := e\<rparr>)" for X l e
    using frame [OF abort [of X], where l = l and e = e] by simp
  from scrape_cases [of cfg st env] show ?thesis
  proof (elim disjE exE)
    fix X l e err
    assume "scrapeNaukriJobs cfg st env =
       (initialState\<lparr>scrapedUrls := X, isLoggedIn := l, events := e\<rparr>, Some err)"
    then show ?thesis using a by simp
  next
    fix l e
    assume r: "scrapeNaukriJobs cfg st env =
       pageLoop cfg env 1
         (initialState\<lparr>scrapedUrls := seedUrls (existingJobUrls st), isLoggedIn := l, events := e\<rparr>)"
    have "P (initialState\<lparr>scrapedUrls := seedUrls (existingJobUrls st), isLoggedIn := l, events := e\<rparr>)"
      using frame [OF start, where l = l and e = e] by simp
    with step frame show ?thesis unfolding r by (rule pageLoop_inv)
  qed
qed

section \<open>The page loop and the calls on the driver\<close>

text \<open>
  The record of driver calls grows by one fetch per page; a recovery adds a quit, driver
  builds and the navigations of the login routine. So the pages a run of the loop fetches
  have consecutive numbers.
\<close>

lemma loginForm_nav: "snd (loginForm lo nav) = nav"
  unfolding loginForm_def by (simp split: option.splits)

lemma addJob_events: "events (addJob cfg jd s) = events s"
  by (simp add: addJob_def)

lemma cardLoop_events:
  assumes "cardLoop cfg cs s = (s', e)"
  shows "events s' = events s"
proof (rule cardLoop_inv [where P = "\<lambda>t. events t = events s", OF _ assms])
  show "events (addJob cfg jd t) = events s" if "events t = events s" for t jd
    using that by (simp add: addJob_events)
qed simp

lemma cardLoop_no_error:
  "list_all (\<lambda>c. pacingError c = None) cs \<Longrightarrow> snd (cardLoop cfg cs s) = None"
proof (induction cs arbitrary: s)
  case Nil
  then show ?case by simp
next
  case (Cons c cs)
  obtain s1 x where r: "processCard cfg c s = (s1, x)" by (cases "processCard cfg c s")
  from Cons.prems have p: "pacingError c = None" "list_all (\<lambda>c. pacingError c = None) cs"
    by auto
  show ?case using r p(1) Cons.IH [OF p(2), of s1]
    by (cases x) auto
qed

lemma pageTry_events:
  assumes "pageTry cfg page po s = (s', x)"
  shows "events s' = events s"
proof (rule pageTry_inv [where P = "\<lambda>t. events t = events s", OF _ assms])
  show "events (addJob cfg jd t) = events s" if "events t = events s" for t jd
    using that by (simp add: addJob_events)
qed simp

lemma fetches_append: "fetches (a @ b) = fetches a @ fetches b"
  by (simp add: fetches_def)

lemma fetches_Nil: "fetches [] = []"
  by (simp add: fetches_def)

lemma fetches_Cons:
  "fetches (ev # evs) = (case ev of Fetch u \<Rightarrow> [u] | _ \<Rightarrow> []) @ fetches evs"
  by (simp add: fetches_def)

lemma fetches_builds: "fetches (snd (initializeDriver build retries)) = []"
proof (induction build retries rule: initializeDriver.induct)
  case (1 build retries)
  show ?case
  proof (cases "retries < MAX_RETRIES \<and> \<not> build retries \<and> \<not> retries + 1 \<ge> MAX_RETRIES")
    case True
    then have "fetches (snd (initializeDriver build (retries + 1))) = []"
      using "1.IH" by simp
    then show ?thesis using True
      by (simp add: initializeDriver.simps [of build retries] fetches_def split: prod.splits)
  next
    case False
    then show ?thesis
      by (auto simp: initializeDriver.simps [of build retries] fetches_def)
  qed
qed

lemma fetches_navs: "fetches (snd (loginToNaukri lo email password)) = []"
proof -
  have f: "fetches (snd (loginForm lo nav)) = fetches nav" for nav
    by (simp add: loginForm_nav)
  show ?thesis
    unfolding loginToNaukri_def
    by (simp add: f split: option.splits) (simp add: fetches_def)
qed

lemma recover_fetches:
  assumes "recover cfg po s = (s', x)"
  shows "fetches (events s') = fetches (events s)"
proof -
  obtain ok builds where b: "initializeDriver (rebuild po) 0 = (ok, builds)"
    by (cases "initializeDriver (rebuild po) 0")
  obtain l navs where n: "loginToNaukri (relogin po) (EMAIL cfg) (PASSWORD cfg) = (l, navs)"
    by (cases "loginToNaukri (relogin po) (EMAIL cfg) (PASSWORD cfg)")
  have fb: "fetches builds = []" using fetches_builds [of "rebuild po" 0] b by simp
  have fn: "fetches navs = []"
    using fetches_navs [of "relogin po" "EMAIL cfg" "PASSWORD cfg"] n by simp
  show ?thesis using assms b n fb fn
    by (cases ok) (auto simp: recover_def fetches_append fetches_Cons fetches_Nil)
qed

lemma pageCatch_fetches:
  assumes "pageCatch cfg po e s = (s', x)"
  shows "fetches (events s') = fetches (events s)"
  using assms recover_fetches [of cfg po s s' x]
  by (auto simp: pageCatch_def split: if_splits)

lemma pageStep_fetches:
  assumes "pageStep cfg page po s = (s', x)"
  shows "fetches (events s') = fetches (events s) @ [currentPageUrl cfg page]"
proof -
  let ?s0 = "s\<lparr>events := events s @ [Fetch (currentPageUrl cfg page)]\<rparr>"
  obtain s1 y where t: "pageTry cfg page po ?s0 = (s1, y)" by (cases "pageTry cfg page po ?s0")
  have e1: "fetches (events s1) = fetches (events s) @ [currentPageUrl cfg page]"
    using pageTry_events [OF t] by (simp add: fetches_def)
  show ?thesis
  proof (cases y)
    case (Thrown e)
    then have "pageCatch cfg po e s1 = (s', x)" using assms t by (simp add: pageStep_def)
    from pageCatch_fetches [OF this] e1 show ?thesis by simp
  qed (use assms t e1 in \<open>auto simp: pageStep_def\<close>)
qed

lemma pageLoop_stopped:
  "\<not> js_le (int page) (MAX_PAGES_TO_SEARCH cfg) \<or> limitsReached cfg s \<Longrightarrow>
   pageLoop cfg env page s = (s, None)"
  by (auto simp: pageLoop.simps [of cfg env page s])

lemma pageLoop_fetches_consecutive:
  "\<exists>k. (k = 0 \<or> js_le (int (page + k) - 1) (MAX_PAGES_TO_SEARCH cfg)) \<and>
       fetches (events (fst (pageLoop cfg env page s))) =
         fetches (events s) @ map (currentPageUrl cfg) [page ..< page + k]"
proof (induction cfg env page s rule: pageLoop.induct)
  case (1 cfg env page s)
  show ?case
  proof (cases "\<not> js_le (int page) (MAX_PAGES_TO_SEARCH cfg) \<or> limitsReached cfg s")
    case True
    then have "pageLoop cfg env page s = (s, None)" by (rule pageLoop_stopped)
    then show ?thesis by (intro exI [of _ 0]) simp
  next
    case False
    then have c: "\<not> \<not> js_le (int page) (MAX_PAGES_TO_SEARCH cfg)" "\<not> limitsReached cfg s" by auto
    obtain s' x where r: "pageStep cfg page (env page) s = (s', x)"
      by (cases "pageStep cfg page (env page) s")
    note f = pageStep_fetches [OF r]
    have one: ?thesis if "fst (pageLoop cfg env page s) = s'"
    proof (intro exI [of _ 1] conjI)
      show "1 = 0 \<or> js_le (int (page + 1) - 1) (MAX_PAGES_TO_SEARCH cfg)" using c by simp
      show "fetches (events (fst (pageLoop cfg env page s))) =
          fetches (events s) @ map (currentPageUrl cfg) [page..<page + 1]"
        using that f by simp
    qed
    have more: ?thesis
      if eq: "pageLoop cfg env page s = pageLoop cfg env (page + 1) s'"
        and ih: "\<exists>k. (k = 0 \<or> js_le (int (page + 1 + k) - 1) (MAX_PAGES_TO_SEARCH cfg)) \<and>
           fetches (events (fst (pageLoop cfg env (page + 1) s'))) =
           fetches (events s') @ map (currentPageUrl cfg) [page + 1 ..< page + 1 + k]"
    proof -
      from ih obtain k where k: "k = 0 \<or> js_le (int (page + 1 + k) - 1) (MAX_PAGES_TO_SEARCH cfg)"
        and fk: "fetches (events (fst (pageLoop cfg env (page + 1) s'))) =
           fetches (events s') @ map (currentPageUrl cfg) [page + 1 ..< page + 1 + k]"
        by blast
      have u: "[page ..< page + (k + 1)] = page # [page + 1 ..< page + 1 + k]"
        by (simp add: upt_conv_Cons)
      show ?thesis
      proof (intro exI [of _ "k + 1"] conjI)
        show "k + 1 = 0 \<or> js_le (int (page + (k + 1)) - 1) (MAX_PAGES_TO_SEARCH cfg)"
          using k c by (auto simp: add.commute add.left_commute)
        show "fetches (events (fst (pageLoop cfg env page s))) =
            fetches (events s) @ map (currentPageUrl cfg) [page..<page + (k + 1)]"
          unfolding eq fk f u by simp
      qed
    qed
    show ?thesis
    proof (cases x)
      case Advance
      show ?thesis
      proof (cases "nextPageError (env page)")
        case None
        have "pageLoop cfg env page s = pageLoop cfg env (page + 1) s'"
          using c r Advance None by (simp add: pageLoop.simps [of cfg env page s])
        then show ?thesis using "1.IH"(1) [OF c r [symmetric] Advance None] by (rule more)
      next
        case (Some e)
        then have "fst (pageLoop cfg env page s) = s'"
          using c r Advance by (simp add: pageLoop.simps [of cfg env page s])
        then show ?thesis by (rule one)
      qed
    next
      case Recovered
      have "pageLoop cfg env page s = pageLoop cfg env (page + 1) s'"
        using c r Recovered by (simp add: pageLoop.simps [of cfg env page s])
      then show ?thesis using "1.IH"(2) [OF c r [symmetric] Recovered] by (rule more)
    next
      case Stop
      then have "fst (pageLoop cfg env page s) = s'"
        using c r by (simp add: pageLoop.simps [of cfg env page s])
      then show ?thesis by (rule one)
    next
      case (Abort e)
      then have "fst (pageLoop cfg env page s) = s'"
        using c r by (simp add: pageLoop.simps [of cfg env page s])
      then show ?thesis by (rule one)
    qed
  qed
qed

lemma pageLoop_continue:
  assumes "js_le (int page) (MAX_PAGES_TO_SEARCH cfg)" "\<not> limitsReached cfg s"
  shows "pageStep cfg page (env page) s = (s', Recovered) \<Longrightarrow>
           pageLoop cfg env page s = pageLoop cfg env (page + 1) s'"
    and "pageStep cfg page (env page) s = (s', Abort err) \<Longrightarrow>
           pageLoop cfg env page s = (s', Some err)"
  using assms by (simp_all add: pageLoop.simps [of cfg env page s])

section \<open>Claims of the specification\<close>

subsection \<open>C1: no URL twice in the batch\<close>

lemma urlsKnown_frame: "urlsKnown (s\<lparr>isLoggedIn := l, events := e\<rparr>) = urlsKnown s"
  by (simp add: urlsKnown_def batchUrls_def)

lemma addJob_urlsKnown:
  "urlsKnown s \<Longrightarrow> Job_URL jd \<notin> scrapedUrls s \<Longrightarrow> urlsKnown (addJob cfg jd s)"
  by (auto simp: urlsKnown_def batchUrls_def addJob_def)

lemma addJob_seedKept:
  "seedKept seed s \<Longrightarrow> Job_URL jd \<notin> scrapedUrls s \<Longrightarrow> seedKept seed (addJob cfg jd s)"
  by (auto simp: seedKept_def urlsKnown_def batchUrls_def addJob_def)

lemma seedKept_frame: "seedKept seed (s\<lparr>isLoggedIn := l, events := e\<rparr>) = seedKept seed s"
  by (simp add: seedKept_def urlsKnown_def batchUrls_def)

lemma scrape_seedKept:
  "batchUrls (fst (scrapeNaukriJobs cfg st env)) = [] \<or>
   seedKept (seedUrls (existingJobUrls st)) (fst (scrapeNaukriJobs cfg st env))"
  using scrape_cases [of cfg st env]
proof (elim disjE exE)
  fix X l e err
  assume "scrapeNaukriJobs cfg st env =
       (initialState\<lparr>scrapedUrls := X, isLoggedIn := l, events := e\<rparr>, Some err)"
  then show ?thesis by (simp add: batchUrls_def initialState_def)
next
  fix l e
  let ?s0 = "initialState\<lparr>scrapedUrls := seedUrls (existingJobUrls st), isLoggedIn := l, events := e\<rparr>"
  assume r: "scrapeNaukriJobs cfg st env = pageLoop cfg env 1 ?s0"
  have "seedKept (seedUrls (existingJobUrls st)) ?s0"
    by (simp add: seedKept_def urlsKnown_def batchUrls_def initialState_def)
  then have "seedKept (seedUrls (existingJobUrls st)) (fst (pageLoop cfg env 1 ?s0))"
  proof (rule pageLoop_inv [where P = "seedKept (seedUrls (existingJobUrls st))", rotated 2])
    show "seedKept (seedUrls (existingJobUrls st)) (addJob cfg jd s)"
      if "seedKept (seedUrls (existingJobUrls st)) s" "Job_URL jd \<notin> scrapedUrls s" for s jd
      using that by (rule addJob_seedKept)
    show "seedKept (seedUrls (existingJobUrls st)) (s\<lparr>isLoggedIn := l, events := e\<rparr>)"
      if "seedKept (seedUrls (existingJobUrls st)) s" for s l e
      using that by (simp only: seedKept_frame)
  qed
  then show ?thesis using r by simp
qed

lemma processCard_known:
  assumes "cardUrl c = Some u" "u \<in> scrapedUrls s"
  shows "fst (processCard cfg c s) = s \<and> (scrollError c = None \<longrightarrow> processCard cfg c s = (s, NextCard))"
  using assms unfolding processCard_def cardUrl_def
  by (auto split: option.splits prod.splits)

text \<open>
  C1. The batch of every run holds pairwise distinct URLs, none of them among the URLs
  loaded from the store. Every card and every page keeps the batch free of repetitions
  and inside the known set; a card whose resolved URL is already known leaves the state
  untouched and is skipped; an accepted record's URL is known from then on.
\<close>

theorem known_urls_never_repeat:
  "distinct (batchUrls (fst (scrapeNaukriJobs cfg st env))) \<and>
   set (batchUrls (fst (scrapeNaukriJobs cfg st env))) \<inter> seedUrls (existingJobUrls st) = {} \<and>
   (urlsKnown s \<longrightarrow> urlsKnown (fst (processCard cfg c s))) \<and>
   (urlsKnown s \<longrightarrow> urlsKnown (fst (pageStep cfg page po s))) \<and>
   (cardUrl c = Some u \<longrightarrow> u \<in> scrapedUrls s \<longrightarrow>
      fst (processCard cfg c s) = s \<and>
      (scrollError c = None \<longrightarrow> processCard cfg c s = (s, NextCard))) \<and>
   (addJob cfg jd s \<noteq> s \<longrightarrow> Job_URL jd \<in> scrapedUrls (addJob cfg jd s))"
proof (intro conjI impI)
  show "distinct (batchUrls (fst (scrapeNaukriJobs cfg st env)))"
    using scrape_seedKept [of cfg st env] by (auto simp: seedKept_def urlsKnown_def)
next
  show "set (batchUrls (fst (scrapeNaukriJobs cfg st env))) \<inter> seedUrls (existingJobUrls st) = {}"
    using scrape_seedKept [of cfg st env] by (auto simp: seedKept_def)
next
  assume a: "urlsKnown s"
  obtain s' x where r: "processCard cfg c s = (s', x)" by (cases "processCard cfg c s")
  have "urlsKnown s'"
  proof (rule processCard_inv [where P = urlsKnown, OF _ r a])
    show "urlsKnown (addJob cfg jd s)" if "urlsKnown s" "Job_URL jd \<notin> scrapedUrls s" for s jd
      using that by (rule addJob_urlsKnown)
  qed
  then show "urlsKnown (fst (processCard cfg c s))" using r by simp
next
  assume a: "urlsKnown s"
  obtain s' x where r: "pageStep cfg page po s = (s', x)" by (cases "pageStep cfg page po s")
  have "urlsKnown s'"
  proof (rule pageStep_inv [where P = urlsKnown, OF _ _ r a])
    show "urlsKnown (addJob cfg jd s)" if "urlsKnown s" "Job_URL jd \<notin> scrapedUrls s" for s jd
      using that by (rule addJob_urlsKnown)
    show "urlsKnown (s\<lparr>isLoggedIn := l, events := e\<rparr>)" if "urlsKnown s" for s l e
      using that by (simp only: urlsKnown_frame)
  qed
  then show "urlsKnown (fst (pageStep cfg page po s))" using r by simp
next
  assume "cardUrl c = Some u" "u \<in> scrapedUrls s"
  then show "fst (processCard cfg c s) = s" using processCard_known by blast
next
  assume "cardUrl c = Some u" "u \<in> scrapedUrls s" "scrollError c = None"
  then show "processCard cfg c s = (s, NextCard)" using processCard_known by blast
next
  assume "addJob cfg jd s \<noteq> s"
  then show "Job_URL jd \<in> scrapedUrls (addJob cfg jd s)"
    by (auto simp: addJob_def split: if_splits)
qed

theorem known_urls_never_repeat_witness:
  "urlsKnown knownState \<and>
   cardUrl (sampleCard ''https://www.naukri.com/job-1'' [] False) = Some ''https://www.naukri.com/job-1'' \<and>
   ''https://www.naukri.com/job-1'' \<in> scrapedUrls knownState \<and>
   scrollError (sampleCard ''https://www.naukri.com/job-1'' [] False) = None \<and>
   addJob sampleConfig sampleJob knownState \<noteq> knownState \<and>
   batchUrls (fst (scrapeNaukriJobs sampleConfig sampleStartup samplePages)) =
     [''https://www.naukri.com/job-2'', ''https://www.naukri.com/job-3''] \<and>
   urlsKnown (fst (processCard sampleConfig (sampleCard ''https://www.naukri.com/job-1'' [] False) knownState)) \<and>
   urlsKnown (fst (pageStep sampleConfig 1 (samplePages 1) knownState)) \<and>
   processCard sampleConfig (sampleCard ''https://www.naukri.com/job-1'' [] False) knownState =
     (knownState, NextCard) \<and>
   Job_URL sampleJob \<in> scrapedUrls (addJob sampleConfig sampleJob knownState) \<and>
   distinct (batchUrls (fst (scrapeNaukriJobs sampleConfig sampleStartup samplePages)))"
proof -
  have e: "urlsKnown knownState \<and>
   cardUrl (sampleCard ''https://www.naukri.com/job-1'' [] False) = Some ''https://www.naukri.com/job-1'' \<and>
   ''https://www.naukri.com/job-1'' \<in> scrapedUrls knownState \<and>
   scrollError (sampleCard ''https://www.naukri.com/job-1'' [] False) = None \<and>
   addJob sampleConfig sampleJob knownState \<noteq> knownState \<and>
   batchUrls (fst (scrapeNaukriJobs sampleConfig sampleStartup samplePages)) =
     [''https://www.naukri.com/job-2'', ''https://www.naukri.com/job-3'']"
    by code_simp
  show ?thesis
    using e known_urls_never_repeat [of sampleConfig sampleStartup samplePages knownState
        "sampleCard ''https://www.naukri.com/job-1'' [] False" 1 "samplePages 1"
        "''https://www.naukri.com/job-1''" sampleJob]
    by blast
qed

subsection \<open>C2: the category limits\<close>

lemma addJob_limitsKept: "limitsKept cfg s \<Longrightarrow> limitsKept cfg (addJob cfg jd s)"
proof -
  have a: "js_lt (int n) lim \<Longrightarrow> withinLimit (n + 1) lim" for n lim
    by (cases lim) (auto simp: withinLimit_def)
  assume "limitsKept cfg s"
  then show ?thesis
    using a [of "internalCount s" "INTERNAL_JOBS_LIMIT cfg"]
      a [of "externalCount s" "EXTERNAL_JOBS_LIMIT cfg"]
    by (simp add: limitsKept_def addJob_def)
qed

lemma limitsKept_frame: "limitsKept cfg (s\<lparr>isLoggedIn := l, events := e\<rparr>) = limitsKept cfg s"
  by (simp add: limitsKept_def)

lemma scrape_limitsKept: "limitsKept cfg (fst (scrapeNaukriJobs cfg st env))"
proof (rule scrape_inv [where P = "limitsKept cfg"])
  show "limitsKept cfg (addJob cfg jd s)" if "limitsKept cfg s" for s jd
    using that by (rule addJob_limitsKept)
  show "limitsKept cfg (s\<lparr>isLoggedIn := l, events := e\<rparr>)" if "limitsKept cfg s" for s l e
    using that by (simp only: limitsKept_frame)
  show "limitsKept cfg (initialState\<lparr>scrapedUrls := seedUrls (existingJobUrls st)\<rparr>)"
    by (simp add: limitsKept_def withinLimit_def initialState_def)
  show "limitsKept cfg (initialState\<lparr>scrapedUrls := X\<rparr>)" for X
    by (simp add: limitsKept_def withinLimit_def initialState_def)
qed

text \<open>
  C2 as stated fails for a negative limit: with the internal limit \<open>-1\<close> the counter is
  \<open>0\<close> throughout, which exceeds the limit.
\<close>

theorem negative_limit_exceeded:
  "INTERNAL_JOBS_LIMIT negativeLimitConfig = Num (- 1) \<and>
   internalCount (fst (scrapeNaukriJobs negativeLimitConfig sampleStartup samplePages)) = 0 \<and>
   js_gt (int (internalCount (fst (scrapeNaukriJobs negativeLimitConfig sampleStartup samplePages))))
         (INTERNAL_JOBS_LIMIT negativeLimitConfig)"
  by code_simp

text \<open>
  C2, as amended. A category counter is zero or at most its limit at every point of a
  run: at the start, after every card and every page, and at the end. So for a limit that
  is a non-negative integer the counter never exceeds it. A counter changes only in the
  acceptance step, only when it is strictly below its limit, and then by one together
  with the batch; the batch grows only together with a counter.
\<close>

theorem counts_within_limits:
  "limitsKept cfg initialState \<and>
   (limitsKept cfg s \<longrightarrow> limitsKept cfg (fst (processCard cfg c s))) \<and>
   (limitsKept cfg s \<longrightarrow> limitsKept cfg (fst (pageStep cfg page po s))) \<and>
   limitsKept cfg (fst (scrapeNaukriJobs cfg st env)) \<and>
   (INTERNAL_JOBS_LIMIT cfg = Num n \<longrightarrow> 0 \<le> n \<longrightarrow>
      int (internalCount (fst (scrapeNaukriJobs cfg st env))) \<le> n) \<and>
   (EXTERNAL_JOBS_LIMIT cfg = Num m \<longrightarrow> 0 \<le> m \<longrightarrow>
      int (externalCount (fst (scrapeNaukriJobs cfg st env))) \<le> m) \<and>
   (internalCount (addJob cfg jd s) \<noteq> internalCount s \<longrightarrow>
      js_lt (int (internalCount s)) (INTERNAL_JOBS_LIMIT cfg) \<and>
      internalCount (addJob cfg jd s) = internalCount s + 1 \<and>
      jobsToSave (addJob cfg jd s) = jobsToSave s @ [jd]) \<and>
   (externalCount (addJob cfg jd s) \<noteq> externalCount s \<longrightarrow>
      js_lt (int (externalCount s)) (EXTERNAL_JOBS_LIMIT cfg) \<and>
      externalCount (addJob cfg jd s) = externalCount s + 1 \<and>
      jobsToSave (addJob cfg jd s) = jobsToSave s @ [jd]) \<and>
   (jobsToSave (addJob cfg jd s) \<noteq> jobsToSave s \<longrightarrow>
      internalCount (addJob cfg jd s) \<noteq> internalCount s \<or>
      externalCount (addJob cfg jd s) \<noteq> externalCount s)"
proof (intro conjI)
  show "limitsKept cfg initialState"
    by (simp add: limitsKept_def withinLimit_def initialState_def)
next
  show "limitsKept cfg s \<longrightarrow> limitsKept cfg (fst (processCard cfg c s))"
  proof
    assume a: "limitsKept cfg s"
    obtain s' x where r: "processCard cfg c s = (s', x)" by (cases "processCard cfg c s")
    have "limitsKept cfg s'"
      by (rule processCard_inv [where P = "limitsKept cfg", OF _ r a]) (rule addJob_limitsKept)
    then show "limitsKept cfg (fst (processCard cfg c s))" using r by simp
  qed
next
  show "limitsKept cfg s \<longrightarrow> limitsKept cfg (fst (pageStep cfg page po s))"
  proof
    assume a: "limitsKept cfg s"
    obtain s' x where r: "pageStep cfg page po s = (s', x)" by (cases "pageStep cfg page po s")
    have "limitsKept cfg s'"
    proof (rule pageStep_inv [where P = "limitsKept cfg", OF _ _ r a])
      show "limitsKept cfg (addJob cfg jd s)" if "limitsKept cfg s" for s jd
        using that by (rule addJob_limitsKept)
      show "limitsKept cfg (s\<lparr>isLoggedIn := l, events := e\<rparr>)" if "limitsKept cfg s" for s l e
        using that by (simp only: limitsKept_frame)
    qed
    then show "limitsKept cfg (fst (pageStep cfg page po s))" using r by simp
  qed
next
  show "limitsKept cfg (fst (scrapeNaukriJobs cfg st env))" by (rule scrape_limitsKept)
next
  show "INTERNAL_JOBS_LIMIT cfg = Num n \<longrightarrow> 0 \<le> n \<longrightarrow>
      int (internalCount (fst (scrapeNaukriJobs cfg st env))) \<le> n"
    using scrape_limitsKept [of cfg st env] by (auto simp: limitsKept_def withinLimit_def)
next
  show "EXTERNAL_JOBS_LIMIT cfg = Num m \<longrightarrow> 0 \<le> m \<longrightarrow>
      int (externalCount (fst (scrapeNaukriJobs cfg st env))) \<le> m"
    using scrape_limitsKept [of cfg st env] by (auto simp: limitsKept_def withinLimit_def)
next
  show "internalCount (addJob cfg jd s) \<noteq> internalCount s \<longrightarrow>
      js_lt (int (internalCount s)) (INTERNAL_JOBS_LIMIT cfg) \<and>
      internalCount (addJob cfg jd s) = internalCount s + 1 \<and>
      jobsToSave (addJob cfg jd s) = jobsToSave s @ [jd]"
    by (simp add: addJob_def)
next
  show "externalCount (addJob cfg jd s) \<noteq> externalCount s \<longrightarrow>
      js_lt (int (externalCount s)) (EXTERNAL_JOBS_LIMIT cfg) \<and>
      externalCount (addJob cfg jd s) = externalCount s + 1 \<and>
      jobsToSave (addJob cfg jd s) = jobsToSave s @ [jd]"
    by (simp add: addJob_def)
next
  show "jobsToSave (addJob cfg jd s) \<noteq> jobsToSave s \<longrightarrow>
      internalCount (addJob cfg jd s) \<noteq> internalCount s \<or>
      externalCount (addJob cfg jd s) \<noteq> externalCount s"
    by (simp add: addJob_def)
qed

theorem counts_within_limits_witness:
  "limitsKept sampleConfig initialState \<and>
   INTERNAL_JOBS_LIMIT sampleConfig = Num 15 \<and> (0::int) \<le> 15 \<and>
   EXTERNAL_JOBS_LIMIT sampleConfig = Num 5 \<and> (0::int) \<le> 5 \<and>
   internalCount (addJob sampleConfig sampleJob initialState) \<noteq> internalCount initialState \<and>
   jobsToSave (addJob sampleConfig sampleJob initialState) \<noteq> jobsToSave initialState \<and>
   externalCount (addJob sampleConfig sampleExternalJob initialState) \<noteq> externalCount initialState \<and>
   internalCount (fst (scrapeNaukriJobs sampleConfig sampleStartup samplePages)) = 1 \<and>
   externalCount (fst (scrapeNaukriJobs sampleConfig sampleStartup samplePages)) = 1 \<and>
   limitsKept sampleConfig
     (fst (processCard sampleConfig (sampleCard ''https://www.naukri.com/job-2'' [] False) initialState)) \<and>
   limitsKept sampleConfig (fst (pageStep sampleConfig 1 (samplePages 1) initialState)) \<and>
   int (internalCount (fst (scrapeNaukriJobs sampleConfig sampleStartup samplePages))) \<le> 15 \<and>
   int (externalCount (fst (scrapeNaukriJobs sampleConfig sampleStartup samplePages))) \<le> 5 \<and>
   js_lt (int (internalCount initialState)) (INTERNAL_JOBS_LIMIT sampleConfig) \<and>
   js_lt (int (externalCount initialState)) (EXTERNAL_JOBS_LIMIT sampleConfig)"
proof -
  have e: "limitsKept sampleConfig initialState \<and>
   INTERNAL_JOBS_LIMIT sampleConfig = Num 15 \<and> (0::int) \<le> 15 \<and>
   EXTERNAL_JOBS_LIMIT sampleConfig = Num 5 \<and> (0::int) \<le> 5 \<and>
   internalCount (addJob sampleConfig sampleJob initialState) \<noteq> internalCount initialState \<and>
   jobsToSave (addJob sampleConfig sampleJob initialState) \<noteq> jobsToSave initialState \<and>
   externalCount (addJob sampleConfig sampleExternalJob initialState) \<noteq> externalCount initialState \<and>
   internalCount (fst (scrapeNaukriJobs sampleConfig sampleStartup samplePages)) = 1 \<and>
   externalCount (fst (scrapeNaukriJobs sampleConfig sampleStartup samplePages)) = 1"
    by code_simp
  show ?thesis
    using e
      counts_within_limits [of sampleConfig initialState
        "sampleCard ''https://www.naukri.com/job-2'' [] False" 1 "samplePages 1"
        sampleStartup samplePages 15 5 sampleJob]
      counts_within_limits [of sampleConfig initialState
        "sampleCard ''https://www.naukri.com/job-2'' [] False" 1 "samplePages 1"
        sampleStartup samplePages 15 5 sampleExternalJob]
    by blast
qed

subsection \<open>C3: a CAPTCHA stops the page loop\<close>

lemma captcha_message:
  "\<not> sessionLost ''CAPTCHA challenge detected on results page'' \<and>
   includesStr ''CAPTCHA challenge detected on results page'' ''CAPTCHA''"
  by code_simp

lemma pageStep_captcha:
  assumes "getError po = None" "captchaDetected po"
  shows "pageTry cfg page po s =
           (s, Thrown \<lparr>errClass = OtherError,
                        message = ''CAPTCHA challenge detected on results page''\<rparr>)"
    and "pageStep cfg page po s =
           (s\<lparr>events := events s @ [Fetch (currentPageUrl cfg page)]\<rparr>, Stop)"
proof -
  show t: "pageTry cfg page po s =
           (s, Thrown \<lparr>errClass = OtherError,
                        message = ''CAPTCHA challenge detected on results page''\<rparr>)" for s
    using assms by (simp add: pageTry_def)
  show "pageStep cfg page po s =
           (s\<lparr>events := events s @ [Fetch (currentPageUrl cfg page)]\<rparr>, Stop)"
    using captcha_message by (simp add: pageStep_def t pageCatch_def)
qed

text \<open>
  C3. When the page was loaded, neither a container nor a card was found and the page
  content contains the CAPTCHA marker, the page's processing throws the CAPTCHA error,
  and the coordinator leaves the page loop: the state is the one before the page plus the
  one fetch of this page, with no further fetch, no driver quit, no driver build and no
  error passed on.
\<close>

theorem captcha_stops_paging:
  "(getError po = None \<longrightarrow> captchaDetected po \<longrightarrow>
      pageTry cfg page po s =
        (s, Thrown \<lparr>errClass = OtherError,
                     message = ''CAPTCHA challenge detected on results page''\<rparr>) \<and>
      pageStep cfg page po s =
        (s\<lparr>events := events s @ [Fetch (currentPageUrl cfg page)]\<rparr>, Stop)) \<and>
   (getError (env page) = None \<longrightarrow> captchaDetected (env page) \<longrightarrow>
    js_le (int page) (MAX_PAGES_TO_SEARCH cfg) \<longrightarrow> \<not> limitsReached cfg s \<longrightarrow>
      pageLoop cfg env page s =
        (s\<lparr>events := events s @ [Fetch (currentPageUrl cfg page)]\<rparr>, None))"
proof (intro conjI impI)
  assume a: "getError po = None" "captchaDetected po"
  from pageStep_captcha [OF a]
  show "pageTry cfg page po s =
        (s, Thrown \<lparr>errClass = OtherError,
                     message = ''CAPTCHA challenge detected on results page''\<rparr>)"
    and "pageStep cfg page po s =
        (s\<lparr>events := events s @ [Fetch (currentPageUrl cfg page)]\<rparr>, Stop)"
    by auto
next
  assume a: "getError (env page) = None" "captchaDetected (env page)"
    and c: "js_le (int page) (MAX_PAGES_TO_SEARCH cfg)" "\<not> limitsReached cfg s"
  show "pageLoop cfg env page s =
        (s\<lparr>events := events s @ [Fetch (currentPageUrl cfg page)]\<rparr>, None)"
    using c pageStep_captcha(2) [OF a, of cfg page s]
    by (simp add: pageLoop.simps [of cfg env page s])
qed

theorem captcha_stops_paging_witness:
  "getError (captchaPages 1) = None \<and> captchaDetected (captchaPages 1) \<and>
   js_le (int 1) (MAX_PAGES_TO_SEARCH sampleConfig) \<and> \<not> limitsReached sampleConfig initialState \<and>
   events (fst (pageLoop sampleConfig captchaPages 1 initialState)) =
     [Fetch ''https://www.naukri.com/data-analyst-jobs-in-bangalore''] \<and>
   pageStep sampleConfig 1 (captchaPages 1) initialState =
     (initialState\<lparr>events := events initialState @ [Fetch (currentPageUrl sampleConfig 1)]\<rparr>, Stop) \<and>
   pageLoop sampleConfig captchaPages 1 initialState =
     (initialState\<lparr>events := events initialState @ [Fetch (currentPageUrl sampleConfig 1)]\<rparr>, None)"
proof -
  have e: "getError (captchaPages 1) = None \<and> captchaDetected (captchaPages 1) \<and>
   js_le (int 1) (MAX_PAGES_TO_SEARCH sampleConfig) \<and> \<not> limitsReached sampleConfig initialState \<and>
   events (fst (pageLoop sampleConfig captchaPages 1 initialState)) =
     [Fetch ''https://www.naukri.com/data-analyst-jobs-in-bangalore'']"
    by code_simp
  show ?thesis
    using e captcha_stops_paging [of "captchaPages 1" sampleConfig 1 initialState captchaPages]
    by blast
qed

subsection \<open>C4: recovery from a lost session\<close>

text \<open>
  C4 as stated fails in two ways. When the driver cannot be built again the run is aborted
  at the failed page. When the error is a timeout error the driver is left as it is, though
  the text tells of a crash.
\<close>

theorem session_loss_can_abort:
  "errClass crashError \<noteq> TimeoutError \<and> sessionLost (message crashError) \<and>
   pageLoop sampleConfig deadPages 1 initialState =
     (initialState\<lparr>events := [Fetch ''https://www.naukri.com/data-analyst-jobs-in-bangalore'',
                               QuitDriver, BuildDriver False, BuildDriver False, BuildDriver False]\<rparr>,
      Some \<lparr>errClass = OtherError,
            message = ''Failed to initialize WebDriver after 3 attempts.''\<rparr>) \<and>
   sessionLost (message timeoutCrashError) \<and>
   pageStep sampleConfig 1 timeoutCrashPage initialState =
     (initialState\<lparr>events := [Fetch ''https://www.naukri.com/data-analyst-jobs-in-bangalore'']\<rparr>,
      Advance)"
  by code_simp

text \<open>
  C4, as amended. When a page throws an error that is not a timeout error and whose text
  contains \<open>session\<close>, \<open>crashed\<close>, \<open>disconnected\<close> or \<open>target closed\<close>, the coordinator
  quits the driver and tries to build a new one. When a build succeeds it calls the login
  routine, saves the cookies after a successful login, and the loop goes on with the next
  page number. When no build succeeds the run is aborted with that failure. Within one run
  of the loop the fetched pages have consecutive numbers, so no page is fetched twice.
\<close>

theorem session_loss_recovery:
  "(pageTry cfg page po (s\<lparr>events := events s @ [Fetch (currentPageUrl cfg page)]\<rparr>) = (s1, Thrown e) \<longrightarrow>
    errClass e \<noteq> TimeoutError \<longrightarrow> sessionLost (message e) \<longrightarrow>
    initializeDriver (rebuild po) 0 = (True, builds) \<longrightarrow>
    loginToNaukri (relogin po) (EMAIL cfg) (PASSWORD cfg) = (ok, navs) \<longrightarrow>
      pageStep cfg page po s =
        (s1\<lparr>isLoggedIn := ok,
            events := events s1 @ [QuitDriver] @ builds @ navs @ (if ok then [SaveCookies] else [])\<rparr>,
         Recovered)) \<and>
   (pageTry cfg page po (s\<lparr>events := events s @ [Fetch (currentPageUrl cfg page)]\<rparr>) = (s1, Thrown e) \<longrightarrow>
    errClass e \<noteq> TimeoutError \<longrightarrow> sessionLost (message e) \<longrightarrow>
    initializeDriver (rebuild po) 0 = (False, builds) \<longrightarrow>
      pageStep cfg page po s =
        (s1\<lparr>events := events s1 @ [QuitDriver] @ builds\<rparr>,
         Abort \<lparr>errClass = OtherError,
                message = ''Failed to initialize WebDriver after 3 attempts.''\<rparr>)) \<and>
   (js_le (int page) (MAX_PAGES_TO_SEARCH cfg) \<longrightarrow> \<not> limitsReached cfg s \<longrightarrow>
    pageStep cfg page (env page) s = (s', Recovered) \<longrightarrow>
      pageLoop cfg env page s = pageLoop cfg env (page + 1) s') \<and>
   (js_le (int page) (MAX_PAGES_TO_SEARCH cfg) \<longrightarrow> \<not> limitsReached cfg s \<longrightarrow>
    pageStep cfg page (env page) s = (s', Abort err) \<longrightarrow>
      pageLoop cfg env page s = (s', Some err)) \<and>
   (\<exists>k. fetches (events (fst (pageLoop cfg env page s))) =
          fetches (events s) @ map (currentPageUrl cfg) [page ..< page + k])"
proof (intro conjI impI)
  assume t: "pageTry cfg page po (s\<lparr>events := events s @ [Fetch (currentPageUrl cfg page)]\<rparr>) = (s1, Thrown e)"
    and e: "errClass e \<noteq> TimeoutError" "sessionLost (message e)"
    and b: "initializeDriver (rebuild po) 0 = (True, builds)"
    and l: "loginToNaukri (relogin po) (EMAIL cfg) (PASSWORD cfg) = (ok, navs)"
  show "pageStep cfg page po s =
        (s1\<lparr>isLoggedIn := ok,
            events := events s1 @ [QuitDriver] @ builds @ navs @ (if ok then [SaveCookies] else [])\<rparr>,
         Recovered)"
    using t e b l by (simp add: pageStep_def pageCatch_def recover_def)
next
  assume t: "pageTry cfg page po (s\<lparr>events := events s @ [Fetch (currentPageUrl cfg page)]\<rparr>) = (s1, Thrown e)"
    and e: "errClass e \<noteq> TimeoutError" "sessionLost (message e)"
    and b: "initializeDriver (rebuild po) 0 = (False, builds)"
  show "pageStep cfg page po s =
        (s1\<lparr>events := events s1 @ [QuitDriver] @ builds\<rparr>,
         Abort \<lparr>errClass = OtherError,
                message = ''Failed to initialize WebDriver after 3 attempts.''\<rparr>)"
    using t e b by (simp add: pageStep_def pageCatch_def recover_def)
next
  assume "js_le (int page) (MAX_PAGES_TO_SEARCH cfg)" "\<not> limitsReached cfg s"
    "pageStep cfg page (env page) s = (s', Recovered)"
  then show "pageLoop cfg env page s = pageLoop cfg env (page + 1) s'"
    by (rule pageLoop_continue(1))
next
  assume "js_le (int page) (MAX_PAGES_TO_SEARCH cfg)" "\<not> limitsReached cfg s"
    "pageStep cfg page (env page) s = (s', Abort err)"
  then show "pageLoop cfg env page s = (s', Some err)"
    by (rule pageLoop_continue(2))
next
  from pageLoop_fetches_consecutive [of page cfg env s]
  show "\<exists>k. fetches (events (fst (pageLoop cfg env page s))) =
          fetches (events s) @ map (currentPageUrl cfg) [page ..< page + k]"
    by blast
qed

theorem session_loss_recovery_witness:
  "pageTry credentialedConfig 1 (crashOncePages 1)
     (initialState\<lparr>events := events initialState @ [Fetch (currentPageUrl credentialedConfig 1)]\<rparr>) =
     (initialState\<lparr>events := [Fetch ''https://www.naukri.com/data-analyst-jobs-in-bangalore'']\<rparr>,
      Thrown crashError) \<and>
   errClass crashError \<noteq> TimeoutError \<and> sessionLost (message crashError) \<and>
   initializeDriver (rebuild (crashOncePages 1)) 0 = (True, [BuildDriver False, BuildDriver True]) \<and>
   loginToNaukri (relogin (crashOncePages 1)) (EMAIL credentialedConfig) (PASSWORD credentialedConfig) =
     (True, [LoginNavigate ''https://www.naukri.com/nlogin/login'']) \<and>
   initializeDriver (rebuild (deadPages 1)) 0 = (False, [BuildDriver False, BuildDriver False, BuildDriver False]) \<and>
   pageTry credentialedConfig 1 (deadPages 1)
     (initialState\<lparr>events := events initialState @ [Fetch (currentPageUrl credentialedConfig 1)]\<rparr>) =
     (initialState\<lparr>events := [Fetch ''https://www.naukri.com/data-analyst-jobs-in-bangalore'']\<rparr>,
      Thrown crashError) \<and>
   js_le (int 1) (MAX_PAGES_TO_SEARCH credentialedConfig) \<and>
   \<not> limitsReached credentialedConfig initialState \<and>
   events (fst (pageLoop credentialedConfig crashOncePages 1 initialState)) =
     [Fetch ''https://www.naukri.com/data-analyst-jobs-in-bangalore'', QuitDriver,
      BuildDriver False, BuildDriver True, LoginNavigate ''https://www.naukri.com/nlogin/login'',
      SaveCookies,
      Fetch ''https://www.naukri.com/data-analyst-jobs-in-bangalore?pageNo=2'',
      Fetch ''https://www.naukri.com/data-analyst-jobs-in-bangalore?pageNo=3''] \<and>
   pageStep credentialedConfig 1 (crashOncePages 1) initialState =
     ((initialState\<lparr>events := [Fetch ''https://www.naukri.com/data-analyst-jobs-in-bangalore'']\<rparr>
        \<lparr>isLoggedIn := True,
         events := events (initialState\<lparr>events := [Fetch ''https://www.naukri.com/data-analyst-jobs-in-bangalore'']\<rparr>) @ [QuitDriver] @
                   [BuildDriver False, BuildDriver True] @
                   [LoginNavigate ''https://www.naukri.com/nlogin/login''] @
                   (if True then [SaveCookies] else [])\<rparr>),
      Recovered) \<and>
   pageLoop credentialedConfig crashOncePages 1 initialState =
     pageLoop credentialedConfig crashOncePages (1 + 1)
       (initialState\<lparr>events := [Fetch ''https://www.naukri.com/data-analyst-jobs-in-bangalore'']\<rparr>
        \<lparr>isLoggedIn := True,
         events := events (initialState\<lparr>events := [Fetch ''https://www.naukri.com/data-analyst-jobs-in-bangalore'']\<rparr>) @ [QuitDriver] @
                   [BuildDriver False, BuildDriver True] @
                   [LoginNavigate ''https://www.naukri.com/nlogin/login''] @
                   (if True then [SaveCookies] else [])\<rparr>) \<and>
   pageStep credentialedConfig 1 (deadPages 1) initialState =
     ((initialState\<lparr>events := [Fetch ''https://www.naukri.com/data-analyst-jobs-in-bangalore'']\<rparr>
        \<lparr>events := events (initialState\<lparr>events := [Fetch ''https://www.naukri.com/data-analyst-jobs-in-bangalore'']\<rparr>) @ [QuitDriver] @
                   [BuildDriver False, BuildDriver False, BuildDriver False]\<rparr>),
      Abort \<lparr>errClass = OtherError, message = ''Failed to initialize WebDriver after 3 attempts.''\<rparr>) \<and>
   pageLoop credentialedConfig deadPages 1 initialState =
     ((initialState\<lparr>events := [Fetch ''https://www.naukri.com/data-analyst-jobs-in-bangalore'']\<rparr>
        \<lparr>events := events (initialState\<lparr>events := [Fetch ''https://www.naukri.com/data-analyst-jobs-in-bangalore'']\<rparr>) @ [QuitDriver] @
                   [BuildDriver False, BuildDriver False, BuildDriver False]\<rparr>),
      Some \<lparr>errClass = OtherError, message = ''Failed to initialize WebDriver after 3 attempts.''\<rparr>)"
proof -
  have e: "pageTry credentialedConfig 1 (crashOncePages 1)
     (initialState\<lparr>events := events initialState @ [Fetch (currentPageUrl credentialedConfig 1)]\<rparr>) =
     (initialState\<lparr>events := [Fetch ''https://www.naukri.com/data-analyst-jobs-in-bangalore'']\<rparr>,
      Thrown crashError) \<and>
   errClass crashError \<noteq> TimeoutError \<and> sessionLost (message crashError) \<and>
   initializeDriver (rebuild (crashOncePages 1)) 0 = (True, [BuildDriver False, BuildDriver True]) \<and>
   loginToNaukri (relogin (crashOncePages 1)) (EMAIL credentialedConfig) (PASSWORD credentialedConfig) =
     (True, [LoginNavigate ''https://www.naukri.com/nlogin/login'']) \<and>
   initializeDriver (rebuild (deadPages 1)) 0 = (False, [BuildDriver False, BuildDriver False, BuildDriver False]) \<and>
   pageTry credentialedConfig 1 (deadPages 1)
     (initialState\<lparr>events := events initialState @ [Fetch (currentPageUrl credentialedConfig 1)]\<rparr>) =
     (initialState\<lparr>events := [Fetch ''https://www.naukri.com/data-analyst-jobs-in-bangalore'']\<rparr>,
      Thrown crashError) \<and>
   js_le (int 1) (MAX_PAGES_TO_SEARCH credentialedConfig) \<and>
   \<not> limitsReached credentialedConfig initialState \<and>
   events (fst (pageLoop credentialedConfig crashOncePages 1 initialState)) =
     [Fetch ''https://www.naukri.com/data-analyst-jobs-in-bangalore'', QuitDriver,
      BuildDriver False, BuildDriver True, LoginNavigate ''https://www.naukri.com/nlogin/login'',
      SaveCookies,
      Fetch ''https://www.naukri.com/data-analyst-jobs-in-bangalore?pageNo=2'',
      Fetch ''https://www.naukri.com/data-analyst-jobs-in-bangalore?pageNo=3'']"
    by code_simp
  note r = session_loss_recovery [of credentialedConfig 1 "crashOncePages 1" initialState
      "initialState\<lparr>events := [Fetch ''https://www.naukri.com/data-analyst-jobs-in-bangalore'']\<rparr>" crashError
      "[BuildDriver False, BuildDriver True]" True
      "[LoginNavigate ''https://www.naukri.com/nlogin/login'']" crashOncePages
      "initialState\<lparr>events := [Fetch ''https://www.naukri.com/data-analyst-jobs-in-bangalore'']\<rparr>         \<lparr>isLoggedIn := True,          events := events (initialState\<lparr>events := [Fetch ''https://www.naukri.com/data-analyst-jobs-in-bangalore'']\<rparr>) @ [QuitDriver] @                    [BuildDriver False, BuildDriver True] @                    [LoginNavigate ''https://www.naukri.com/nlogin/login''] @                    (if True then [SaveCookies] else [])\<rparr>"]
  note a = session_loss_recovery [of credentialedConfig 1 "deadPages 1" initialState
      "initialState\<lparr>events := [Fetch ''https://www.naukri.com/data-analyst-jobs-in-bangalore'']\<rparr>" crashError
      "[BuildDriver False, BuildDriver False, BuildDriver False]" True "[]" deadPages
      "initialState\<lparr>events := [Fetch ''https://www.naukri.com/data-analyst-jobs-in-bangalore'']\<rparr>         \<lparr>events := events (initialState\<lparr>events := [Fetch ''https://www.naukri.com/data-analyst-jobs-in-bangalore'']\<rparr>) @ [QuitDriver] @                    [BuildDriver False, BuildDriver False, BuildDriver False]\<rparr>"
      "\<lparr>errClass = OtherError, message = ''Failed to initialize WebDriver after 3 attempts.''\<rparr>"]
  show ?thesis using e r a by simp
qed

subsection \<open>C5: three pages, three fetches\<close>

lemma pageStep_hasCards:
  assumes "pageHasCards po"
  shows "snd (pageStep cfg page po s) = Advance"
proof -
  let ?s0 = "s\<lparr>events := events s @ [Fetch (currentPageUrl cfg page)]\<rparr>"
  let ?cs = "firstCards (cardsBy po) jobCardSelectors"
  have n: "snd (cardLoop cfg ?cs ?s0) = None"
    using assms by (intro cardLoop_no_error) (simp add: pageHasCards_def)
  obtain s1 e where cl: "cardLoop cfg ?cs ?s0 = (s1, e)" by (cases "cardLoop cfg ?cs ?s0")
  with n have "e = None" by simp
  then have "pageTry cfg page po ?s0 = (s1, TryDone)"
    using assms cl by (simp add: pageTry_def pageHasCards_def captchaDetected_def)
  then show ?thesis by (simp add: pageStep_def)
qed

lemma pageLoop_fetches_all:
  assumes "\<forall>p. pageHasCards (env p)"
  shows "MAX_PAGES_TO_SEARCH cfg = Num m \<Longrightarrow> int page \<le> m + 1 \<Longrightarrow>
         \<not> limitsReached cfg (fst (pageLoop cfg env page s)) \<Longrightarrow>
         fetches (events (fst (pageLoop cfg env page s))) =
           fetches (events s) @ map (currentPageUrl cfg) [page ..< nat (m + 1)]"
  using assms
proof (induction cfg env page s rule: pageLoop.induct)
  case (1 cfg env page s)
  note mx = "1.prems"(1) and le = "1.prems"(2) and nl = "1.prems"(3) and hc = "1.prems"(4)
  show ?case
  proof (cases "int page \<le> m")
    case False
    then have "pageLoop cfg env page s = (s, None)"
      using mx by (intro pageLoop_stopped) simp
    moreover have "[page ..< nat (m + 1)] = []" using False le by simp
    ultimately show ?thesis by simp
  next
    case True
    have nls: "\<not> limitsReached cfg s"
    proof
      assume "limitsReached cfg s"
      then have "pageLoop cfg env page s = (s, None)" by (intro pageLoop_stopped) simp
      with nl \<open>limitsReached cfg s\<close> show False by simp
    qed
    have c: "\<not> \<not> js_le (int page) (MAX_PAGES_TO_SEARCH cfg)" using True mx by simp
    obtain s' x where r: "pageStep cfg page (env page) s = (s', x)"
      by (cases "pageStep cfg page (env page) s")
    have x: "x = Advance" using pageStep_hasCards [of "env page" cfg page s] hc r by simp
    have np: "nextPageError (env page) = None" using hc by (simp add: pageHasCards_def)
    have eq: "pageLoop cfg env page s = pageLoop cfg env (page + 1) s'"
      using c nls r x np by (simp add: pageLoop.simps [of cfg env page s])
    have "fetches (events (fst (pageLoop cfg env (page + 1) s'))) =
           fetches (events s') @ map (currentPageUrl cfg) [page + 1 ..< nat (m + 1)]"
    proof (rule "1.IH"(1) [OF c nls r [symmetric] x np mx _ _ hc])
      show "int (page + 1) \<le> m + 1" using True by simp
      show "\<not> limitsReached cfg (fst (pageLoop cfg env (page + 1) s'))" using nl eq by simp
    qed
    moreover have "[page ..< nat (m + 1)] = page # [page + 1 ..< nat (m + 1)]"
      using True by (simp add: upt_conv_Cons)
    ultimately show ?thesis using eq pageStep_fetches [OF r] by simp
  qed
qed

lemma upto_three: "[1 ..< nat (3 + 1)] = [1, 2, 3::nat]"
  by (simp add: upt_conv_Cons)

text \<open>
  C5. With a maximum of 3 pages, result pages that always contain cards, and limits that
  are not both reached when the loop ends (so at no earlier point either), the page loop
  started at page 1 fetches exactly the URLs of pages 1, 2 and 3, in this order. Whatever
  the pages hold, it never makes more than 3 fetches. Both stop conditions are tested
  before the fetch: when the page number is above the maximum or both limits are reached,
  the loop ends with the state unchanged.
\<close>

theorem three_pages_three_fetches:
  "(MAX_PAGES_TO_SEARCH cfg = Num 3 \<longrightarrow> (\<forall>p. pageHasCards (env p)) \<longrightarrow>
    \<not> limitsReached cfg (fst (pageLoop cfg env 1 s)) \<longrightarrow>
      fetches (events (fst (pageLoop cfg env 1 s))) =
        fetches (events s) @ [currentPageUrl cfg 1, currentPageUrl cfg 2, currentPageUrl cfg 3]) \<and>
   (MAX_PAGES_TO_SEARCH cfg = Num 3 \<longrightarrow>
      length (fetches (events (fst (pageLoop cfg env 1 s)))) \<le> length (fetches (events s)) + 3) \<and>
   (\<not> js_le (int page) (MAX_PAGES_TO_SEARCH cfg) \<or> limitsReached cfg s \<longrightarrow>
      pageLoop cfg env page s = (s, None))"
proof (intro conjI impI)
  assume mx: "MAX_PAGES_TO_SEARCH cfg = Num 3" and hc: "\<forall>p. pageHasCards (env p)"
    and nl: "\<not> limitsReached cfg (fst (pageLoop cfg env 1 s))"
  have "fetches (events (fst (pageLoop cfg env 1 s))) =
           fetches (events s) @ map (currentPageUrl cfg) [1 ..< nat (3 + 1)]"
    using hc mx _ nl by (rule pageLoop_fetches_all) simp
  then show "fetches (events (fst (pageLoop cfg env 1 s))) =
        fetches (events s) @ [currentPageUrl cfg 1, currentPageUrl cfg 2, currentPageUrl cfg 3]"
    unfolding upto_three by simp
next
  assume mx: "MAX_PAGES_TO_SEARCH cfg = Num 3"
  from pageLoop_fetches_consecutive [of 1 cfg env s]
  obtain k where k: "k = 0 \<or> js_le (int (1 + k) - 1) (MAX_PAGES_TO_SEARCH cfg)"
    and f: "fetches (events (fst (pageLoop cfg env 1 s))) =
         fetches (events s) @ map (currentPageUrl cfg) [1 ..< 1 + k]"
    by blast
  from k mx have "k \<le> 3" by auto
  then show "length (fetches (events (fst (pageLoop cfg env 1 s)))) \<le> length (fetches (events s)) + 3"
    unfolding f by simp
next
  assume "\<not> js_le (int page) (MAX_PAGES_TO_SEARCH cfg) \<or> limitsReached cfg s"
  then show "pageLoop cfg env page s = (s, None)" by (rule pageLoop_stopped)
qed

lemma samplePages_haveCards: "pageHasCards (samplePages p)"
proof -
  have "pageHasCards (samplePage [sampleCard ''https://www.naukri.com/job-2'' [] False,
                 sampleCard ''https://www.naukri.com/job-1'' [] False,
                 sampleCard ''https://www.naukri.com/job-3'' [] True])"
    by code_simp
  then show ?thesis by (simp add: samplePages_def)
qed

theorem three_pages_three_fetches_witness:
  "MAX_PAGES_TO_SEARCH sampleConfig = Num 3 \<and>
   (\<forall>p. pageHasCards (samplePages p)) \<and>
   \<not> limitsReached sampleConfig (fst (pageLoop sampleConfig samplePages 1 initialState)) \<and>
   \<not> js_le (int 4) (MAX_PAGES_TO_SEARCH sampleConfig) \<and>
   fetches (events (fst (pageLoop sampleConfig samplePages 1 initialState))) =
     [''https://www.naukri.com/data-analyst-jobs-in-bangalore'',
      ''https://www.naukri.com/data-analyst-jobs-in-bangalore?pageNo=2'',
      ''https://www.naukri.com/data-analyst-jobs-in-bangalore?pageNo=3''] \<and>
   pageLoop sampleConfig samplePages 4 initialState = (initialState, None)"
proof -
  have e: "MAX_PAGES_TO_SEARCH sampleConfig = Num 3 \<and>
   \<not> limitsReached sampleConfig (fst (pageLoop sampleConfig samplePages 1 initialState)) \<and>
   \<not> js_le (int 4) (MAX_PAGES_TO_SEARCH sampleConfig) \<and>
   fetches (events initialState) = [] \<and>
   currentPageUrl sampleConfig 1 = ''https://www.naukri.com/data-analyst-jobs-in-bangalore'' \<and>
   currentPageUrl sampleConfig 2 = ''https://www.naukri.com/data-analyst-jobs-in-bangalore?pageNo=2'' \<and>
   currentPageUrl sampleConfig 3 = ''https://www.naukri.com/data-analyst-jobs-in-bangalore?pageNo=3''"
    by code_simp
  have h: "\<forall>p. pageHasCards (samplePages p)"
    by (simp add: samplePages_haveCards)
  have "fetches (events (fst (pageLoop sampleConfig samplePages 1 initialState))) =
        fetches (events initialState) @
          [currentPageUrl sampleConfig 1, currentPageUrl sampleConfig 2, currentPageUrl sampleConfig 3]"
    and "pageLoop sampleConfig samplePages 4 initialState = (initialState, None)"
    using e h three_pages_three_fetches [of sampleConfig samplePages initialState 4]
    by blast+
  then show ?thesis using e h by simp
qed

subsection \<open>C6: the separator of the page number\<close>

text \<open>
  C6. The URL of page 1 is the base URL, with nothing appended. The base URL ends with
  the experience parameter exactly when the experience filter is given. For a page
  number above 1 the page-number parameter is appended to the base URL, after \<open>&\<close> when
  the experience parameter is in the base URL and after \<open>?\<close> when it is not.
\<close>

theorem page_url_separator:
  "currentPageUrl cfg 1 = searchUrlBase cfg \<and>
   (experienceGiven cfg \<longrightarrow>
      searchUrlBase cfg = searchUrlStem cfg @ ''?experience='' @ EXPERIENCE cfg) \<and>
   (\<not> experienceGiven cfg \<longrightarrow> searchUrlBase cfg = searchUrlStem cfg) \<and>
   (1 < N \<longrightarrow> experienceGiven cfg \<longrightarrow>
      currentPageUrl cfg N = searchUrlBase cfg @ ''&'' @ ''pageNo='' @ toString N) \<and>
   (1 < N \<longrightarrow> \<not> experienceGiven cfg \<longrightarrow>
      currentPageUrl cfg N = searchUrlBase cfg @ ''?'' @ ''pageNo='' @ toString N)"
  by (simp add: currentPageUrl_def searchUrlBase_def searchUrlParams_def)

theorem page_url_separator_witness:
  "1 < (2::nat) \<and> experienceGiven experiencedConfig \<and> \<not> experienceGiven sampleConfig \<and>
   currentPageUrl experiencedConfig 1 =
     ''https://www.naukri.com/data-analyst-jobs-in-bangalore?experience=3'' \<and>
   currentPageUrl experiencedConfig 2 =
     ''https://www.naukri.com/data-analyst-jobs-in-bangalore?experience=3&pageNo=2'' \<and>
   currentPageUrl sampleConfig 1 = ''https://www.naukri.com/data-analyst-jobs-in-bangalore'' \<and>
   currentPageUrl sampleConfig 2 =
     ''https://www.naukri.com/data-analyst-jobs-in-bangalore?pageNo=2'' \<and>
   currentPageUrl experiencedConfig 2 =
     searchUrlBase experiencedConfig @ ''&'' @ ''pageNo='' @ toString 2 \<and>
   currentPageUrl sampleConfig 2 = searchUrlBase sampleConfig @ ''?'' @ ''pageNo='' @ toString 2 \<and>
   searchUrlBase experiencedConfig =
     searchUrlStem experiencedConfig @ ''?experience='' @ EXPERIENCE experiencedConfig \<and>
   searchUrlBase sampleConfig = searchUrlStem sampleConfig"
proof -
  have e: "1 < (2::nat) \<and> experienceGiven experiencedConfig \<and> \<not> experienceGiven sampleConfig \<and>
   currentPageUrl experiencedConfig 1 =
     ''https://www.naukri.com/data-analyst-jobs-in-bangalore?experience=3'' \<and>
   currentPageUrl experiencedConfig 2 =
     ''https://www.naukri.com/data-analyst-jobs-in-bangalore?experience=3&pageNo=2'' \<and>
   currentPageUrl sampleConfig 1 = ''https://www.naukri.com/data-analyst-jobs-in-bangalore'' \<and>
   currentPageUrl sampleConfig 2 =
     ''https://www.naukri.com/data-analyst-jobs-in-bangalore?pageNo=2''"
    by code_simp
  show ?thesis
    using e page_url_separator [of experiencedConfig 2] page_url_separator [of sampleConfig 2]
    by blast
qed

subsection \<open>C7: the description from the details page\<close>

lemma detailDescription_cases:
  "detailDescription d sels cur = cur \<or>
   (length cur + 20 < length (detailDescription d sels cur) \<and>
    detailDescription d sels cur \<in> set (map (\<lambda>selector. safeGetText (findElement d selector) []) sels))"
proof (induction sels)
  case Nil
  then show ?case by simp
next
  case (Cons selector rest)
  then show ?case
    by (cases "findElement d selector") (auto simp: Let_def)
qed

lemma detailDescription_retained:
  "list_all (\<lambda>t. length t \<le> length cur) (map (\<lambda>selector. safeGetText (findElement d selector) []) sels)
   \<Longrightarrow> detailDescription d sels cur = cur"
  using detailDescription_cases [of d sels cur]
  by (auto simp: list_all_iff)

lemma orNotAvailable_length: "length v \<le> length (orNotAvailable v)"
  by (simp add: orNotAvailable_def)

lemma enrich_description:
  assumes "enrich cfg c t u = Inr jd"
  shows "Job_Description jd =
     orNotAvailable
       (case detailTry c (cardDescription c)
               (fst (cardSkills (cardDom c) skillsSelectors [] ''Not available''))
               (snd (cardSkills (cardDom c) skillsSelectors [] ''Not available'')) of
          Inl detailError \<Rightarrow>
            if errClass detailError = TimeoutError
            then ''Details page did not load correctly or structure changed.''
            else cardDescription c
        | Inr r \<Rightarrow> fst r)"
  using assms unfolding enrich_def detailPhase_def
  by (auto simp: Let_def split: option.splits sum.splits prod.splits if_splits)

lemma detailTry_opened:
  "detailOpened c \<Longrightarrow>
   detailTry c desc sl sk =
     Inr (detailDescription (detailDom c) detailDescriptionSelectors desc,
          detailSkills (detailDom c) detailSkillsSelectors sl sk,
          externalCheck (detailDom c) externalButtonSelectors)"
  by (simp add: detailOpened_def detailTry_def)

text \<open>
  C7. When the details page of a card was opened, the description in the record is the
  card's snippet (or the sentinel for an empty one), or it is one of the texts of the
  details page and more than 20 characters longer than the snippet. When no text of the
  details page is longer than the snippet, the snippet is retained. The description in
  the record is never shorter than the snippet.
\<close>

theorem detail_description_only_if_longer:
  "(enrich cfg c t u = Inr jd \<longrightarrow> detailOpened c \<longrightarrow>
      Job_Description jd = orNotAvailable (cardDescription c) \<or>
      (Job_Description jd \<in> set (detailTexts c) \<and>
       length (cardDescription c) + 20 < length (Job_Description jd))) \<and>
   (enrich cfg c t u = Inr jd \<longrightarrow> detailOpened c \<longrightarrow>
      list_all (\<lambda>detailText. length detailText \<le> length (cardDescription c)) (detailTexts c) \<longrightarrow>
      Job_Description jd = orNotAvailable (cardDescription c)) \<and>
   (enrich cfg c t u = Inr jd \<longrightarrow> detailOpened c \<longrightarrow>
      length (cardDescription c) \<le> length (Job_Description jd))"
proof (intro conjI impI)
  assume e: "enrich cfg c t u = Inr jd" and o: "detailOpened c"
  have jd: "Job_Description jd =
      orNotAvailable (detailDescription (detailDom c) detailDescriptionSelectors (cardDescription c))"
    using enrich_description [OF e] detailTry_opened [OF o] by simp
  note cs = detailDescription_cases [of "detailDom c" detailDescriptionSelectors "cardDescription c"]
  show "Job_Description jd = orNotAvailable (cardDescription c) \<or>
      (Job_Description jd \<in> set (detailTexts c) \<and>
       length (cardDescription c) + 20 < length (Job_Description jd))"
    using cs jd unfolding detailTexts_def by (auto simp: orNotAvailable_def)
  show "length (cardDescription c) \<le> length (Job_Description jd)"
    using cs jd orNotAvailable_length [of "cardDescription c"]
      orNotAvailable_length [of "detailDescription (detailDom c) detailDescriptionSelectors (cardDescription c)"]
    by auto
  assume "list_all (\<lambda>detailText. length detailText \<le> length (cardDescription c)) (detailTexts c)"
  then show "Job_Description jd = orNotAvailable (cardDescription c)"
    using jd detailDescription_retained [of "cardDescription c" "detailDom c" detailDescriptionSelectors]
    unfolding detailTexts_def by simp
qed

theorem detail_description_only_if_longer_witness:
  "enrich sampleConfig (sampleCard ''https://www.naukri.com/job-2'' longDetail False) ''Analyst''
     ''https://www.naukri.com/job-2'' = Inr (sampleJob\<lparr>Job_Description := longDetail\<rparr>) \<and>
   enrich sampleConfig (sampleCard ''https://www.naukri.com/job-2'' ''Builds reports.'' False) ''Analyst''
     ''https://www.naukri.com/job-2'' =
       Inr (sampleJob\<lparr>Job_Description := ''Builds reports for the team...''\<rparr>) \<and>
   detailOpened (sampleCard ''https://www.naukri.com/job-2'' longDetail False) \<and>
   detailOpened (sampleCard ''https://www.naukri.com/job-2'' ''Builds reports.'' False) \<and>
   cardDescription (sampleCard ''https://www.naukri.com/job-2'' ''Builds reports.'' False) =
     ''Builds reports for the team...'' \<and>
   list_all (\<lambda>detailText. length detailText \<le>
        length (cardDescription (sampleCard ''https://www.naukri.com/job-2'' ''Builds reports.'' False)))
      (detailTexts (sampleCard ''https://www.naukri.com/job-2'' ''Builds reports.'' False)) \<and>
   Job_Description (sampleJob\<lparr>Job_Description := longDetail\<rparr>) \<noteq>
     orNotAvailable (cardDescription (sampleCard ''https://www.naukri.com/job-2'' longDetail False)) \<and>
   Job_Description (sampleJob\<lparr>Job_Description := longDetail\<rparr>)
     \<in> set (detailTexts (sampleCard ''https://www.naukri.com/job-2'' longDetail False)) \<and>
   length (cardDescription (sampleCard ''https://www.naukri.com/job-2'' longDetail False)) + 20
     < length (Job_Description (sampleJob\<lparr>Job_Description := longDetail\<rparr>)) \<and>
   Job_Description (sampleJob\<lparr>Job_Description := ''Builds reports for the team...''\<rparr>) =
     orNotAvailable (cardDescription (sampleCard ''https://www.naukri.com/job-2'' ''Builds reports.'' False))"
proof -
  have e: "enrich sampleConfig (sampleCard ''https://www.naukri.com/job-2'' longDetail False) ''Analyst''
     ''https://www.naukri.com/job-2'' = Inr (sampleJob\<lparr>Job_Description := longDetail\<rparr>) \<and>
   enrich sampleConfig (sampleCard ''https://www.naukri.com/job-2'' ''Builds reports.'' False) ''Analyst''
     ''https://www.naukri.com/job-2'' =
       Inr (sampleJob\<lparr>Job_Description := ''Builds reports for the team...''\<rparr>) \<and>
   detailOpened (sampleCard ''https://www.naukri.com/job-2'' longDetail False) \<and>
   detailOpened (sampleCard ''https://www.naukri.com/job-2'' ''Builds reports.'' False) \<and>
   cardDescription (sampleCard ''https://www.naukri.com/job-2'' ''Builds reports.'' False) =
     ''Builds reports for the team...'' \<and>
   list_all (\<lambda>detailText. length detailText \<le>
        length (cardDescription (sampleCard ''https://www.naukri.com/job-2'' ''Builds reports.'' False)))
      (detailTexts (sampleCard ''https://www.naukri.com/job-2'' ''Builds reports.'' False)) \<and>
   Job_Description (sampleJob\<lparr>Job_Description := longDetail\<rparr>) \<noteq>
     orNotAvailable (cardDescription (sampleCard ''https://www.naukri.com/job-2'' longDetail False))"
    by code_simp
  show ?thesis
    using e
      detail_description_only_if_longer [of sampleConfig
        "sampleCard ''https://www.naukri.com/job-2'' longDetail False" "''Analyst''"
        "''https://www.naukri.com/job-2''" "sampleJob\<lparr>Job_Description := longDetail\<rparr>"]
      detail_description_only_if_longer [of sampleConfig
        "sampleCard ''https://www.naukri.com/job-2'' ''Builds reports.'' False" "''Analyst''"
        "''https://www.naukri.com/job-2''"
        "sampleJob\<lparr>Job_Description := ''Builds reports for the team...''\<rparr>"]
    by blast
qed

subsection \<open>C8: the application type of accepted records\<close>

lemma externalCheck_cases:
  "externalCheck d sels = ''Internal'' \<or>
   (externalCheck d sels = ''External'' \<and>
    list_ex (\<lambda>selector. anyDisplayed (findElements d selector) = Some True) sels)"
  by (induction sels) auto

lemma anyDisplayed_evidence:
  "anyDisplayed els = Some True \<Longrightarrow> list_ex (\<lambda>btn. isDisplayed btn = Some True) els"
  by (induction els) (auto split: option.splits bool.splits)

lemma enrich_type:
  assumes "enrich cfg c t u = Inr jd"
  shows "Application_Type jd = ''Internal'' \<or> (Application_Type jd = ''External'' \<and> externalEvidence c)"
proof -
  have ev: "list_ex (\<lambda>selector. anyDisplayed (findElements d selector) = Some True) sels \<Longrightarrow>
        list_ex (\<lambda>selector. list_ex (\<lambda>btn. isDisplayed btn = Some True) (findElements d selector)) sels"
    for d sels
    by (induction sels) (auto dest: anyDisplayed_evidence)
  from assms obtain jd' sk where
    d: "detailPhase c (cardDescription c) (fst (cardSkills (cardDom c) skillsSelectors [] ''Not available''))
          (snd (cardSkills (cardDom c) skillsSelectors [] ''Not available'')) = Inr (jd', sk, Application_Type jd)"
    unfolding enrich_def by (auto simp: Let_def split: option.splits sum.splits prod.splits)
  then show ?thesis
    using externalCheck_cases [of "detailDom c" externalButtonSelectors]
      ev [of "detailDom c" externalButtonSelectors]
    unfolding detailPhase_def detailTry_def externalEvidence_def
    by (auto simp: Let_def split: option.splits sum.splits if_splits)
qed

lemma addJob_types:
  "list_all typeKnown (jobsToSave s) \<Longrightarrow> list_all typeKnown (jobsToSave (addJob cfg jd s))"
  by (simp add: addJob_def typeKnown_def)

text \<open>
  C8. Every record in the batch of a run has the application type Internal or External,
  and every card keeps the batch so. The type an enriched card carries is Internal unless
  the details page showed a displayed button of an external-apply selector.
\<close>

theorem accepted_types_known:
  "list_all typeKnown (jobsToSave (fst (scrapeNaukriJobs cfg st env))) \<and>
   (list_all typeKnown (jobsToSave s) \<longrightarrow>
      list_all typeKnown (jobsToSave (fst (processCard cfg c s)))) \<and>
   (enrich cfg c t u = Inr jd \<longrightarrow>
      Application_Type jd = ''Internal'' \<or>
      (Application_Type jd = ''External'' \<and> externalEvidence c))"
proof (intro conjI impI)
  show "list_all typeKnown (jobsToSave (fst (scrapeNaukriJobs cfg st env)))"
  proof (rule scrape_inv [where P = "\<lambda>s. list_all typeKnown (jobsToSave s)"])
    show "list_all typeKnown (jobsToSave (addJob cfg jd s))"
      if "list_all typeKnown (jobsToSave s)" for s jd
      using that by (rule addJob_types)
    show "list_all typeKnown (jobsToSave (s\<lparr>isLoggedIn := l, events := e\<rparr>))"
      if "list_all typeKnown (jobsToSave s)" for s l e
      using that by simp
    show "list_all typeKnown
            (jobsToSave (initialState\<lparr>scrapedUrls := seedUrls (existingJobUrls st)\<rparr>))"
      by (simp add: initialState_def)
    show "list_all typeKnown (jobsToSave (initialState\<lparr>scrapedUrls := X\<rparr>))" for X
      by (simp add: initialState_def)
  qed
next
  assume a: "list_all typeKnown (jobsToSave s)"
  obtain s' x where r: "processCard cfg c s = (s', x)" by (cases "processCard cfg c s")
  have "list_all typeKnown (jobsToSave s')"
    by (rule processCard_inv [where P = "\<lambda>s. list_all typeKnown (jobsToSave s)", OF _ r a])
       (rule addJob_types)
  then show "list_all typeKnown (jobsToSave (fst (processCard cfg c s)))" using r by simp
next
  assume "enrich cfg c t u = Inr jd"
  then show "Application_Type jd = ''Internal'' \<or>
      (Application_Type jd = ''External'' \<and> externalEvidence c)"
    by (rule enrich_type)
qed

theorem accepted_types_known_witness:
  "list_all typeKnown (jobsToSave initialState) \<and>
   enrich sampleConfig (sampleCard ''https://www.naukri.com/job-3'' [] True) ''Analyst''
     ''https://www.naukri.com/job-3'' = Inr sampleExternalJob \<and>
   map Application_Type (jobsToSave (fst (scrapeNaukriJobs sampleConfig sampleStartup samplePages))) =
     [''Internal'', ''External''] \<and>
   list_all typeKnown
     (jobsToSave (fst (processCard sampleConfig (sampleCard ''https://www.naukri.com/job-3'' [] True)
                         initialState))) \<and>
   Application_Type sampleExternalJob = ''External'' \<and>
   externalEvidence (sampleCard ''https://www.naukri.com/job-3'' [] True) \<and>
   list_all typeKnown (jobsToSave (fst (scrapeNaukriJobs sampleConfig sampleStartup samplePages)))"
proof -
  have e: "list_all typeKnown (jobsToSave initialState) \<and>
   enrich sampleConfig (sampleCard ''https://www.naukri.com/job-3'' [] True) ''Analyst''
     ''https://www.naukri.com/job-3'' = Inr sampleExternalJob \<and>
   map Application_Type (jobsToSave (fst (scrapeNaukriJobs sampleConfig sampleStartup samplePages))) =
     [''Internal'', ''External''] \<and>
   Application_Type sampleExternalJob = ''External'' \<and>
   Application_Type sampleExternalJob \<noteq> ''Internal''"
    by code_simp
  show ?thesis
    using e accepted_types_known [of sampleConfig sampleStartup samplePages initialState
        "sampleCard ''https://www.naukri.com/job-3'' [] True" "''Analyst''"
        "''https://www.naukri.com/job-3''" sampleExternalJob]
    by metis
qed

subsection \<open>C9: login without credentials\<close>

lemma loginToNaukri_nav:
  assumes "email \<noteq> []" "password \<noteq> []"
  shows "\<exists>rest. snd (loginToNaukri lo email password) =
      LoginNavigate ''https://www.naukri.com/nlogin/login'' # rest"
proof (cases "firstGetOk lo")
  case False
  then show ?thesis using assms by (simp add: loginToNaukri_def)
next
  case True
  show ?thesis
  proof (cases "urlAfterGet lo")
    case None
    then show ?thesis using assms True by (simp add: loginToNaukri_def)
  next
    case (Some currentUrl)
    then show ?thesis using assms True
      by (cases "emailFieldShown lo"; cases "\<not> secondGetOk lo \<or> \<not> emailFieldShownSecond lo")
         (simp_all add: loginToNaukri_def loginForm_nav)
  qed
qed

text \<open>
  C9. With an empty email or an empty password the login routine returns false and makes
  no navigation (with both given, its first act is a navigation to the login page). The
  run goes on without a login: a recovery that calls the routine continues at the next
  page with the login flag false, and at the start of a run without restored cookies the
  login phase ends with the login flag false and no error. With or without restored
  cookies, the login phase then makes no call of the login routine on the driver.
\<close>

theorem login_without_credentials:
  "(email = [] \<or> password = [] \<longrightarrow> loginToNaukri lo email password = (False, [])) \<and>
   (email \<noteq> [] \<longrightarrow> password \<noteq> [] \<longrightarrow>
      hd (snd (loginToNaukri lo email password)) = LoginNavigate ''https://www.naukri.com/nlogin/login'' \<and>
      snd (loginToNaukri lo email password) \<noteq> []) \<and>
   (EMAIL cfg = [] \<or> PASSWORD cfg = [] \<longrightarrow> initializeDriver (rebuild po) 0 = (True, builds) \<longrightarrow>
      recover cfg po s =
        (s\<lparr>isLoggedIn := False, events := events s @ [QuitDriver] @ builds\<rparr>, Recovered)) \<and>
   (EMAIL cfg = [] \<or> PASSWORD cfg = [] \<longrightarrow> \<not> cookiesRestored st \<longrightarrow>
      loginPhase cfg st s = (s\<lparr>isLoggedIn := False\<rparr>, None)) \<and>
   (EMAIL cfg = [] \<or> PASSWORD cfg = [] \<longrightarrow>
      events (fst (loginPhase cfg st s)) = events s)"
proof (intro conjI impI)
  assume "email = [] \<or> password = []"
  then show "loginToNaukri lo email password = (False, [])"
    by (simp add: loginToNaukri_def)
next
  assume "email \<noteq> []" "password \<noteq> []"
  from loginToNaukri_nav [OF this, of lo]
  show "hd (snd (loginToNaukri lo email password)) = LoginNavigate ''https://www.naukri.com/nlogin/login''"
    and "snd (loginToNaukri lo email password) \<noteq> []"
    by auto
next
  assume a: "EMAIL cfg = [] \<or> PASSWORD cfg = []" and b: "initializeDriver (rebuild po) 0 = (True, builds)"
  have "loginToNaukri (relogin po) (EMAIL cfg) (PASSWORD cfg) = (False, [])"
    using a by (simp add: loginToNaukri_def)
  then show "recover cfg po s =
        (s\<lparr>isLoggedIn := False, events := events s @ [QuitDriver] @ builds\<rparr>, Recovered)"
    using b by (simp add: recover_def)
next
  assume "EMAIL cfg = [] \<or> PASSWORD cfg = []" "\<not> cookiesRestored st"
  then show "loginPhase cfg st s = (s\<lparr>isLoggedIn := False\<rparr>, None)"
    by (auto simp: loginPhase_def)
next
  assume "EMAIL cfg = [] \<or> PASSWORD cfg = []"
  then show "events (fst (loginPhase cfg st s)) = events s"
    by (auto simp: loginPhase_def Let_def)
qed

theorem login_without_credentials_witness:
  "PASSWORD sampleConfig = [] \<and> ''user@example.com'' \<noteq> [] \<and> ''secret'' \<noteq> [] \<and>
   initializeDriver (rebuild (samplePages 1)) 0 = (True, [BuildDriver True]) \<and>
   \<not> cookiesRestored sampleStartup \<and>
   loginToNaukri sampleLogin ''user@example.com'' [] = (False, []) \<and>
   hd (snd (loginToNaukri sampleLogin ''user@example.com'' ''secret'')) =
     LoginNavigate ''https://www.naukri.com/nlogin/login'' \<and>
   recover sampleConfig (samplePages 1) initialState =
     (initialState\<lparr>isLoggedIn := False,
                    events := events initialState @ [QuitDriver] @ [BuildDriver True]\<rparr>, Recovered) \<and>
   loginPhase sampleConfig sampleStartup initialState = (initialState\<lparr>isLoggedIn := False\<rparr>, None) \<and>
   events (fst (loginPhase sampleConfig sampleStartup initialState)) = events initialState"
proof -
  have e: "PASSWORD sampleConfig = [] \<and> ''user@example.com'' \<noteq> [] \<and> ''secret'' \<noteq> [] \<and>
   initializeDriver (rebuild (samplePages 1)) 0 = (True, [BuildDriver True]) \<and>
   \<not> cookiesRestored sampleStartup"
    by code_simp
  show ?thesis
    using e
      login_without_credentials [of "''user@example.com''" "[]" sampleLogin sampleConfig
        "samplePages 1" "[BuildDriver True]" initialState sampleStartup]
      login_without_credentials [of "''user@example.com''" "''secret''" sampleLogin sampleConfig
        "samplePages 1" "[BuildDriver True]" initialState sampleStartup]
    by blast
qed

subsection \<open>C10: the batch and the counters\<close>

lemma addJob_countsAgree: "countsAgree s \<Longrightarrow> countsAgree (addJob cfg jd s)"
  by (simp add: countsAgree_def addJob_def)

lemma countsAgree_frame: "countsAgree (s\<lparr>isLoggedIn := l, events := e\<rparr>) = countsAgree s"
  by (simp add: countsAgree_def)

text \<open>
  C10. At every point of a run the batch has as many records as the two category
  counters add up to, and as the counter of new jobs says: the property holds at the
  start, every card and every page keeps it, and it holds when the page loop has ended.
  A card changes the state only through the acceptance step, which either leaves the state
  as it is or appends one record, adds its URL to the known set and increments the
  counter of new jobs and exactly one category counter.
\<close>

theorem counts_agree_throughout:
  "countsAgree initialState \<and>
   (countsAgree s \<longrightarrow> countsAgree (fst (processCard cfg c s))) \<and>
   (countsAgree s \<longrightarrow> countsAgree (fst (pageStep cfg page po s))) \<and>
   countsAgree (fst (scrapeNaukriJobs cfg st env)) \<and>
   (fst (processCard cfg c s) = s \<or> (\<exists>jd'. fst (processCard cfg c s) = addJob cfg jd' s)) \<and>
   (addJob cfg jd s = s \<or>
    (jobsToSave (addJob cfg jd s) = jobsToSave s @ [jd] \<and>
     scrapedUrls (addJob cfg jd s) = insert (Job_URL jd) (scrapedUrls s) \<and>
     newJobsCount (addJob cfg jd s) = newJobsCount s + 1 \<and>
     ((internalCount (addJob cfg jd s) = internalCount s + 1 \<and>
       externalCount (addJob cfg jd s) = externalCount s) \<or>
      (internalCount (addJob cfg jd s) = internalCount s \<and>
       externalCount (addJob cfg jd s) = externalCount s + 1))))"
proof (intro conjI impI)
  show "countsAgree initialState" by (simp add: countsAgree_def initialState_def)
next
  assume a: "countsAgree s"
  obtain s' x where r: "processCard cfg c s = (s', x)" by (cases "processCard cfg c s")
  have "countsAgree s'"
    by (rule processCard_inv [where P = countsAgree, OF _ r a]) (rule addJob_countsAgree)
  then show "countsAgree (fst (processCard cfg c s))" using r by simp
next
  assume a: "countsAgree s"
  obtain s' x where r: "pageStep cfg page po s = (s', x)" by (cases "pageStep cfg page po s")
  have "countsAgree s'"
  proof (rule pageStep_inv [where P = countsAgree, OF _ _ r a])
    show "countsAgree (addJob cfg jd s)" if "countsAgree s" for s jd
      using that by (rule addJob_countsAgree)
    show "countsAgree (s\<lparr>isLoggedIn := l, events := e\<rparr>)" if "countsAgree s" for s l e
      using that by (simp only: countsAgree_frame)
  qed
  then show "countsAgree (fst (pageStep cfg page po s))" using r by simp
next
  show "countsAgree (fst (scrapeNaukriJobs cfg st env))"
  proof (rule scrape_inv [where P = countsAgree])
    show "countsAgree (addJob cfg jd s)" if "countsAgree s" for s jd
      using that by (rule addJob_countsAgree)
    show "countsAgree (s\<lparr>isLoggedIn := l, events := e\<rparr>)" if "countsAgree s" for s l e
      using that by (simp only: countsAgree_frame)
    show "countsAgree (initialState\<lparr>scrapedUrls := seedUrls (existingJobUrls st)\<rparr>)"
      by (simp add: countsAgree_def initialState_def)
    show "countsAgree (initialState\<lparr>scrapedUrls := X\<rparr>)" for X
      by (simp add: countsAgree_def initialState_def)
  qed
next
  obtain s' x where r: "processCard cfg c s = (s', x)" by (cases "processCard cfg c s")
  from processCard_cases [OF r]
  show "fst (processCard cfg c s) = s \<or> (\<exists>jd'. fst (processCard cfg c s) = addJob cfg jd' s)"
    using r by auto
next
  show "addJob cfg jd s = s \<or>
    (jobsToSave (addJob cfg jd s) = jobsToSave s @ [jd] \<and>
     scrapedUrls (addJob cfg jd s) = insert (Job_URL jd) (scrapedUrls s) \<and>
     newJobsCount (addJob cfg jd s) = newJobsCount s + 1 \<and>
     ((internalCount (addJob cfg jd s) = internalCount s + 1 \<and>
       externalCount (addJob cfg jd s) = externalCount s) \<or>
      (internalCount (addJob cfg jd s) = internalCount s \<and>
       externalCount (addJob cfg jd s) = externalCount s + 1)))"
    by (simp add: addJob_def)
qed

theorem counts_agree_throughout_witness:
  "countsAgree initialState \<and>
   countsAgree (fst (processCard sampleConfig (sampleCard ''https://www.naukri.com/job-2'' [] False) initialState)) \<and>
   length (jobsToSave (fst (processCard sampleConfig (sampleCard ''https://www.naukri.com/job-2'' [] False) initialState))) = 1 \<and>
   countsAgree (fst (pageStep sampleConfig 1 (samplePage [sampleCard ''https://www.naukri.com/job-2'' [] False]) initialState))"
proof -
  have e: "length (jobsToSave (fst (processCard sampleConfig (sampleCard ''https://www.naukri.com/job-2'' [] False) initialState))) = 1"
    by code_simp
  show ?thesis
    using e counts_agree_throughout [of initialState sampleConfig
        "sampleCard ''https://www.naukri.com/job-2'' [] False" 1
        "samplePage [sampleCard ''https://www.naukri.com/job-2'' [] False]"]
    by blast
qed

end
